theory Spec2Isabelle
  imports Main "HOL-Library.Sublist"
begin

section \<open>Schema resolution of the Azure Pipelines extension\<close>

text \<open>
  A shallow embedding of \<^verbatim>\<open>src/schema-association-service.ts\<close>: the entry point
  \<^verbatim>\<open>locateSchemaFile\<close>, the detection routine \<^verbatim>\<open>autoDetectSchema\<close> and the two
  promise continuations that \<^verbatim>\<open>autoDetectSchema\<close> starts without awaiting them.

  The module state (\<^verbatim>\<open>seenOrganizations\<close>, the workspace memento) is passed explicitly,
  every call into a collaborator is an entry of a trace, and every \<^verbatim>\<open>throw\<close> is a value
  \<open>Inl e\<close>. Whatever the file imports (the \<^verbatim>\<open>path\<close> module, \<^verbatim>\<open>vscode.Uri\<close>, the account,
  Git and Azure DevOps clients, the quick pick) is a field of the environment \<open>env\<close>, so
  every statement below holds for all behaviours of these collaborators.

  An awaited call is a step of the sequence it stands in. A promise chain that is started
  and not awaited is put aside with the variables it captured (\<open>pending\<close>) and run
  later, by \<open>answer\<close>, in whatever state the process has by then. The object under the
  memento key is a finite map from folder names to its own entries. A log line is recorded
  by the statement that writes it, not by its text; what matters of the text is which
  properties its template reads.
\<close>

subsection \<open>Data\<close>

datatype error =
    TypeError            \<comment> \<open>a property read on \<^verbatim>\<open>undefined\<close>\<close>
  | Thrown string        \<comment> \<open>an error raised by a collaborator\<close>

record uri =
  scheme :: string
  authority :: string
  path :: string
  query :: string
  fragment :: string

record workspaceFolder =
  name :: string
  fsPath :: string       \<comment> \<open>\<^verbatim>\<open>workspaceFolder.uri.fsPath\<close>\<close>

record session =
  userId :: string
  tenantId :: string

record details =
  organization :: string
  tenant :: string

text \<open>The object stored under the memento key \<^verbatim>\<open>azurePipelinesDetails\<close>: folder name to details.\<close>

type_synonym folderDetails = "string \<rightharpoonup> details"

record extensionContext =
  extensionPath :: string
  globalStorageUri :: uri

record remote =
  remoteName :: string
  fetchUrl :: "string option"

record repository =
  status :: "error + unit"
  upstream :: "string option"   \<comment> \<open>\<^verbatim>\<open>state.HEAD?.upstream\<close>, by the name of its remote\<close>
  remotes :: "remote list"

datatype message =
    SignInForEnhancedIntelliSense
  | SelectOrganizationForEnhancedIntelliSense string
  | UnableToAccessOrganization string

datatype log_line =
    DetectingSchema string
  | DetectedSchema string string
  | ErrorAutoDetecting string error
  | UsingHardcodedSchema string string
  | WaitingForLogin
  | FoundRemoteUrl string "string option"
  | HasNoRemoteUrls string error
  | IsAzureRepo string
  | NotAzureRepo string
  | UsingCachedInformation string string string
  | PromptingForOrganization string
  | NoOrganizationFound string
  | ReturningCachedSchema string
  | RetrievingSchema string

datatype effect =
    Log log_line
  | ShowInformationMessage message string
  | ShowErrorMessage message
  | ShowQuickPick
  | ExecuteCommand string
  | ListOrganizations session
  | GetToken session
  | GetTaskAgentApi string
  | GetYamlSchema string
  | CreateDirectory uri
  | WriteFile uri string
  | UpdateWorkspaceState string details
  | Fire workspaceFolder     \<comment> \<open>\<^verbatim>\<open>selectOrganizationEvent.fire\<close>\<close>

text \<open>
  The calls that leave the machine: the organization list of a session, the token of a
  session, and the two requests to the organization's task agent service.
\<close>

fun isNetworkCall :: "effect \<Rightarrow> bool" where
  "isNetworkCall (ListOrganizations s) = True"
| "isNetworkCall (GetToken s) = True"
| "isNetworkCall (GetTaskAgentApi url) = True"
| "isNetworkCall (GetYamlSchema url) = True"
| "isNetworkCall e = False"

fun isSchemaFetch :: "effect \<Rightarrow> bool" where
  "isSchemaFetch (GetToken s) = True"
| "isSchemaFetch (GetTaskAgentApi url) = True"
| "isSchemaFetch (GetYamlSchema url) = True"
| "isSchemaFetch (WriteFile u c) = True"
| "isSchemaFetch e = False"

fun isPrompt :: "effect \<Rightarrow> bool" where
  "isPrompt (ShowInformationMessage m l) = True"
| "isPrompt ShowQuickPick = True"
| "isPrompt e = False"

fun isErrorMessage :: "effect \<Rightarrow> bool" where
  "isErrorMessage (ShowErrorMessage m) = True"
| "isErrorMessage e = False"

fun isFire :: "effect \<Rightarrow> bool" where
  "isFire (Fire w) = True"
| "isFire e = False"

text \<open>
  A promise chain that is started and not awaited: the closure with the variables it
  captured. \<^verbatim>\<open>azurePipelinesDetails\<close> is captured as it was read at line 164.
\<close>

datatype task =
    SignInPrompt
  | SelectOrganizationPrompt workspaceFolder "folderDetails option"

record state =
  seenOrganizations :: "string set"
  azurePipelinesDetails :: "folderDetails option"   \<comment> \<open>\<^verbatim>\<open>context.workspaceState\<close>\<close>
  pending :: "task list"
  trace :: "effect list"

text \<open>The state of a process that has just started.\<close>

definition initial :: state where
  "initial = \<lparr>seenOrganizations = {}, azurePipelinesDetails = None, pending = [], trace = []\<rparr>"

subsection \<open>The environment\<close>

record platform =
  toLowerCase :: "string \<Rightarrow> string"
  trim :: "string \<Rightarrow> string"
  path_join :: "string \<Rightarrow> string \<Rightarrow> string"
  path_isAbsolute :: "string \<Rightarrow> bool"
  Uri_parse :: "string \<Rightarrow> error + uri"      \<comment> \<open>\<^verbatim>\<open>Uri.parse(value, true)\<close>: the strict parser throws\<close>
  Uri_file :: "string \<Rightarrow> uri"
  joinPath :: "uri \<Rightarrow> string \<Rightarrow> uri"

record env = platform +
  customSchemaFile :: string                   \<comment> \<open>the setting, \<^verbatim>\<open>''\<close> when unset\<close>
  signInLabel :: string
  selectOrganizationLabel :: string
  getAzureAccountExtensionApi :: "error + unit"
  waitForSubscriptions :: "error + bool"
  sessions :: "session list"
  getGitExtensionApi :: "error + unit"
  openRepository :: "workspaceFolder \<Rightarrow> error + repository option"
  isAzureReposUrl :: "string \<Rightarrow> bool"
  getRepositoryDetailsFromRemoteUrl :: "string \<Rightarrow> error + string"   \<comment> \<open>its \<^verbatim>\<open>organizationName\<close>\<close>
  listOrganizations :: "session \<Rightarrow> error + string list"               \<comment> \<open>the \<^verbatim>\<open>accountName\<close>s\<close>
  createDirectory :: "uri \<Rightarrow> error + unit"
  getToken :: "session \<Rightarrow> error + string"                             \<comment> \<open>its \<^verbatim>\<open>accessToken\<close>\<close>
  getTaskAgentApi :: "string \<Rightarrow> string \<Rightarrow> error + unit"
  getYamlSchema :: "string \<Rightarrow> string \<Rightarrow> error + string"                \<comment> \<open>already through \<^verbatim>\<open>JSON.stringify\<close>\<close>
  writeFile :: "uri \<Rightarrow> string \<Rightarrow> error + unit"
  showQuickPick :: "(string \<times> session) list option \<Rightarrow> error + (string \<times> session) option"
  workspaceState_update :: "folderDetails \<Rightarrow> error + unit"

subsection \<open>Control flow\<close>

type_synonym 'a io = "state \<Rightarrow> (error + 'a) \<times> state"

definition ret :: "'a \<Rightarrow> 'a io" where
  "ret x = (\<lambda>st. (Inr x, st))"

definition raise :: "error \<Rightarrow> 'a io" where
  "raise e = (\<lambda>st. (Inl e, st))"

definition andThen :: "'a io \<Rightarrow> ('a \<Rightarrow> 'b io) \<Rightarrow> 'b io" where
  "andThen m f = (\<lambda>st. case m st of (Inl e, st') \<Rightarrow> (Inl e, st') | (Inr x, st') \<Rightarrow> f x st')"

definition attempt :: "'a io \<Rightarrow> (error \<Rightarrow> 'a io) \<Rightarrow> 'a io" where
  "attempt m handler = (\<lambda>st. case m st of (Inl e, st') \<Rightarrow> handler e st' | (Inr x, st') \<Rightarrow> (Inr x, st'))"

definition emit :: "effect \<Rightarrow> unit io" where
  "emit e = (\<lambda>st. (Inr (), st\<lparr>trace := trace st @ [e]\<rparr>))"

text \<open>A call that is recorded in the trace, and one that is not (it stays on the machine).\<close>

definition await :: "effect \<Rightarrow> error + 'a \<Rightarrow> 'a io" where
  "await e r = (\<lambda>st. (r, st\<lparr>trace := trace st @ [e]\<rparr>))"

definition outcome :: "error + 'a \<Rightarrow> 'a io" where
  "outcome r = (\<lambda>st. (r, st))"

definition reading :: "(state \<Rightarrow> 'a io) \<Rightarrow> 'a io" where
  "reading f = (\<lambda>st. f st st)"

definition modify :: "(state \<Rightarrow> state) \<Rightarrow> unit io" where
  "modify f = (\<lambda>st. (Inr (), f st))"

text \<open>The effects a run added to the trace.\<close>

definition emitted :: "state \<Rightarrow> state \<Rightarrow> effect list" where
  "emitted st st' = drop (length (trace st)) (trace st')"

subsection \<open>\<^verbatim>\<open>autoDetectSchema\<close>, lines 92 to 271\<close>

text \<open>Lines 124 to 144: the fetch URL of the upstream remote; any error means no URL.\<close>

definition remoteUrlOf :: "repository \<Rightarrow> string \<Rightarrow> string option" where
  "remoteUrlOf repo upstreamRemote =
     (case find (\<lambda>r. remoteName r = upstreamRemote) (remotes repo) of
        None \<Rightarrow> None
      | Some r \<Rightarrow> fetchUrl r)"

definition getRemoteUrl :: "env \<Rightarrow> workspaceFolder \<Rightarrow> string option io" where
  "getRemoteUrl env workspaceFolder =
     attempt
       (andThen (outcome (getGitExtensionApi env)) (\<lambda>_.
        andThen (outcome (openRepository env workspaceFolder)) (\<lambda>repo.
          case repo of
            None \<Rightarrow> ret None
          | Some repo \<Rightarrow>
              andThen (outcome (status repo)) (\<lambda>_.
                case upstream repo of
                  None \<Rightarrow> ret None
                | Some upstreamRemote \<Rightarrow>
                    andThen (emit (Log (FoundRemoteUrl (name workspaceFolder)
                                          (remoteUrlOf repo upstreamRemote)))) (\<lambda>_.
                    ret (remoteUrlOf repo upstreamRemote))))))
       (\<lambda>error.
          andThen (emit (Log (HasNoRemoteUrls (name workspaceFolder) error))) (\<lambda>_. ret None))"

text \<open>Line 156: the session's list has the organization, compared in lower case.\<close>

definition hasOrganization :: "env \<Rightarrow> string \<Rightarrow> string list \<Rightarrow> bool" where
  "hasOrganization env organizationName organizations =
     (find (\<lambda>accountName. toLowerCase env accountName = toLowerCase env organizationName)
        organizations \<noteq> None)"

text \<open>Lines 153 to 160: the loop over the sessions, one list query each, first match wins.\<close>

fun findSession :: "env \<Rightarrow> string \<Rightarrow> session list \<Rightarrow> session option io" where
  "findSession env organizationName [] st = (Inr None, st)"
| "findSession env organizationName (azureSession # rest) st =
     (case await (ListOrganizations azureSession) (listOrganizations env azureSession) st of
        (Inl e, st') \<Rightarrow> (Inl e, st')
      | (Inr organizations, st') \<Rightarrow>
          if hasOrganization env organizationName organizations
          then (Inr (Some azureSession), st')
          else findSession env organizationName rest st')"

datatype resolution =
    Prompted                            \<comment> \<open>line 232: \<^verbatim>\<open>return undefined\<close> after the prompt\<close>
  | Resolved string "session option"    \<comment> \<open>\<^verbatim>\<open>organizationName\<close> and \<^verbatim>\<open>session\<close> at line 236\<close>

text \<open>Lines 149 to 160: an Azure Repos remote names the organization.\<close>

definition fromRemoteUrl :: "env \<Rightarrow> workspaceFolder \<Rightarrow> string \<Rightarrow> resolution io" where
  "fromRemoteUrl env workspaceFolder remoteUrl =
     andThen (emit (Log (IsAzureRepo (name workspaceFolder)))) (\<lambda>_.
     andThen (outcome (getRepositoryDetailsFromRemoteUrl env remoteUrl)) (\<lambda>organizationName.
     andThen (findSession env organizationName (sessions env)) (\<lambda>session.
     ret (Resolved organizationName session))))"

text \<open>
  Lines 162 to 233: the stored choice of this folder
  (\<^verbatim>\<open>azurePipelinesDetails?.[workspaceFolder.name]\<close>), or the prompt. Line 173 builds its
  log message from \<^verbatim>\<open>session.tenantId\<close> before the test of line 237, so a stored choice
  without a session of that tenant throws there.
\<close>

definition storedChoice :: "state \<Rightarrow> string \<Rightarrow> details option" where
  "storedChoice st folderName =
     (case azurePipelinesDetails st of None \<Rightarrow> None | Some m \<Rightarrow> m folderName)"

definition fromWorkspaceState :: "env \<Rightarrow> workspaceFolder \<Rightarrow> resolution io" where
  "fromWorkspaceState env workspaceFolder =
     andThen (emit (Log (NotAzureRepo (name workspaceFolder)))) (\<lambda>_.
     reading (\<lambda>st.
       case storedChoice st (name workspaceFolder) of
         Some details \<Rightarrow>
           (case find (\<lambda>session. tenantId session = tenant details) (sessions env) of
              None \<Rightarrow> raise TypeError
            | Some session \<Rightarrow>
                andThen (emit (Log (UsingCachedInformation (name workspaceFolder)
                                      (organization details) (tenantId session)))) (\<lambda>_.
                ret (Resolved (organization details) (Some session))))
       | None \<Rightarrow>
           andThen (emit (Log (PromptingForOrganization (name workspaceFolder)))) (\<lambda>_.
           andThen (emit (ShowInformationMessage
                            (SelectOrganizationForEnhancedIntelliSense (name workspaceFolder))
                            (selectOrganizationLabel env))) (\<lambda>_.
           andThen (modify (\<lambda>st'. st'\<lparr>pending := pending st' @
                      [SelectOrganizationPrompt workspaceFolder (azurePipelinesDetails st)]\<rparr>)) (\<lambda>_.
           ret Prompted)))))"

text \<open>Line 253, the file of an organization, and line 263, the address of its service.\<close>

definition schemaUriOf :: "env \<Rightarrow> extensionContext \<Rightarrow> string \<Rightarrow> uri" where
  "schemaUriOf env context organizationName =
     joinPath env (globalStorageUri context) (organizationName @ ''-schema.json'')"

definition serverUrl :: "string \<Rightarrow> string" where
  "serverUrl organizationName = ''https://dev.azure.com/'' @ organizationName"

text \<open>Lines 243 to 270: the session-level cache and the fetch.\<close>

definition fetchSchema ::
  "env \<Rightarrow> extensionContext \<Rightarrow> workspaceFolder \<Rightarrow> string \<Rightarrow> session \<Rightarrow> uri io" where
  "fetchSchema env context workspaceFolder organizationName session =
     andThen (await (CreateDirectory (globalStorageUri context))
                (createDirectory env (globalStorageUri context))) (\<lambda>_.
     reading (\<lambda>st.
       if organizationName \<in> seenOrganizations st
       then andThen (emit (Log (ReturningCachedSchema (name workspaceFolder)))) (\<lambda>_.
            ret (schemaUriOf env context organizationName))
       else andThen (emit (Log (RetrievingSchema (name workspaceFolder)))) (\<lambda>_.
            andThen (await (GetToken session) (getToken env session)) (\<lambda>accessToken.
            andThen (await (GetTaskAgentApi (serverUrl organizationName))
                       (getTaskAgentApi env (serverUrl organizationName) accessToken)) (\<lambda>_.
            andThen (await (GetYamlSchema (serverUrl organizationName))
                       (getYamlSchema env (serverUrl organizationName) accessToken)) (\<lambda>schema.
            andThen (await (WriteFile (schemaUriOf env context organizationName) schema)
                       (writeFile env (schemaUriOf env context organizationName) schema)) (\<lambda>_.
            andThen (modify (\<lambda>st'. st'\<lparr>seenOrganizations :=
                               insert organizationName (seenOrganizations st')\<rparr>)) (\<lambda>_.
            ret (schemaUriOf env context organizationName)))))))))"

text \<open>Lines 146 to 234: which organization, and which session.\<close>

definition resolveOrganization :: "env \<Rightarrow> workspaceFolder \<Rightarrow> string option \<Rightarrow> resolution io" where
  "resolveOrganization env workspaceFolder remoteUrl =
     (case remoteUrl of
        None \<Rightarrow> fromWorkspaceState env workspaceFolder
      | Some url \<Rightarrow>
          if isAzureReposUrl env url then fromRemoteUrl env workspaceFolder url
          else fromWorkspaceState env workspaceFolder)"

text \<open>Lines 123 to 234 in one piece: the remote URL, then the organization and session.\<close>

definition identify :: "env \<Rightarrow> workspaceFolder \<Rightarrow> resolution io" where
  "identify env workspaceFolder =
     andThen (getRemoteUrl env workspaceFolder) (\<lambda>remoteUrl.
     resolveOrganization env workspaceFolder remoteUrl)"

definition autoDetectSchema ::
  "env \<Rightarrow> extensionContext \<Rightarrow> workspaceFolder \<Rightarrow> uri option io" where
  "autoDetectSchema env context workspaceFolder =
     andThen (outcome (getAzureAccountExtensionApi env)) (\<lambda>_.
     andThen (outcome (waitForSubscriptions env)) (\<lambda>loggedIn.
       if \<not> loggedIn
       then andThen (emit (Log WaitingForLogin)) (\<lambda>_.
            andThen (emit (ShowInformationMessage SignInForEnhancedIntelliSense
                             (signInLabel env))) (\<lambda>_.
            andThen (modify (\<lambda>st. st\<lparr>pending := pending st @ [SignInPrompt]\<rparr>)) (\<lambda>_.
            ret None)))
       else andThen (identify env workspaceFolder) (\<lambda>resolved.
              case resolved of
                Prompted \<Rightarrow> ret None
              | Resolved organizationName None \<Rightarrow>
                  andThen (emit (Log (NoOrganizationFound (name workspaceFolder)))) (\<lambda>_.
                  andThen (emit (ShowErrorMessage
                                   (UnableToAccessOrganization organizationName))) (\<lambda>_.
                  ret None))
              | Resolved organizationName (Some session) \<Rightarrow>
                  andThen (fetchSchema env context workspaceFolder organizationName session)
                    (\<lambda>schemaUri. ret (Some schemaUri)))))"

subsection \<open>The continuations that are not awaited\<close>

text \<open>Lines 109 to 118: the answer to the sign-in message.\<close>

definition signInAnswered :: "env \<Rightarrow> string option \<Rightarrow> unit io" where
  "signInAnswered env action =
     (if action = Some (signInLabel env)
      then emit (ExecuteCommand ''azure-account.login'')
      else ret ())"

text \<open>Lines 196 to 203: every organization of every session, with its session.\<close>

fun organizationAndSessions :: "env \<Rightarrow> session list \<Rightarrow> (string \<times> session) list io" where
  "organizationAndSessions env [] st = (Inr [], st)"
| "organizationAndSessions env (azureSession # rest) st =
     (case await (ListOrganizations azureSession) (listOrganizations env azureSession) st of
        (Inl e, st') \<Rightarrow> (Inl e, st')
      | (Inr organizations, st') \<Rightarrow>
          (case organizationAndSessions env rest st' of
             (Inl e, st'') \<Rightarrow> (Inl e, st'')
           | (Inr items, st'') \<Rightarrow>
               (Inr (map (\<lambda>accountName. (accountName, azureSession)) organizations @ items), st'')))"

text \<open>
  Lines 191 to 206: the list is built inside a promise. When a query throws, that promise
  never resolves and the quick pick is left without items (\<open>None\<close>).
\<close>

definition organizationAndSessionsPromise :: "env \<Rightarrow> (string \<times> session) list option io" where
  "organizationAndSessionsPromise env =
     attempt
       (andThen (organizationAndSessions env (sessions env)) (\<lambda>items. ret (Some items)))
       (\<lambda>error. ret None)"

text \<open>Lines 221 to 227: the captured object, spread, with the entry of this folder.\<close>

definition merged :: "folderDetails option \<Rightarrow> string \<Rightarrow> details \<Rightarrow> folderDetails" where
  "merged capturedDetails folderName d =
     (case capturedDetails of None \<Rightarrow> Map.empty | Some m \<Rightarrow> m)(folderName \<mapsto> d)"

text \<open>Lines 187 to 230: the answer to the select-organization message.\<close>

definition selectOrganizationAnswered ::
  "env \<Rightarrow> workspaceFolder \<Rightarrow> folderDetails option \<Rightarrow> string option \<Rightarrow> unit io" where
  "selectOrganizationAnswered env workspaceFolder capturedDetails action =
     (if action = Some (selectOrganizationLabel env)
      then andThen (organizationAndSessionsPromise env) (\<lambda>items.
           andThen (await ShowQuickPick (showQuickPick env items)) (\<lambda>selected.
             case selected of
               None \<Rightarrow> ret ()
             | Some (label, data) \<Rightarrow>
                 andThen (await (UpdateWorkspaceState (name workspaceFolder)
                                   \<lparr>organization = label, tenant = tenantId data\<rparr>)
                            (workspaceState_update env
                               (merged capturedDetails (name workspaceFolder)
                                  \<lparr>organization = label, tenant = tenantId data\<rparr>))) (\<lambda>_.
                 andThen (modify (\<lambda>st. st\<lparr>azurePipelinesDetails := Some
                            (merged capturedDetails (name workspaceFolder)
                               \<lparr>organization = label, tenant = tenantId data\<rparr>)\<rparr>)) (\<lambda>_.
                 emit (Fire workspaceFolder)))))
      else ret ())"

text \<open>Running a pending continuation with the user's answer to its message.\<close>

fun answer :: "env \<Rightarrow> task \<Rightarrow> string option \<Rightarrow> unit io" where
  "answer env SignInPrompt action = signInAnswered env action"
| "answer env (SelectOrganizationPrompt workspaceFolder capturedDetails) action =
     selectOrganizationAnswered env workspaceFolder capturedDetails action"

subsection \<open>\<^verbatim>\<open>locateSchemaFile\<close>, lines 29 to 77\<close>

text \<open>Lines 53 to 67: the URI of the configured or bundled schema.\<close>

definition hasHttpScheme :: "env \<Rightarrow> string \<Rightarrow> bool" where
  "hasHttpScheme env alternateSchema =
     (prefix ''http://'' (toLowerCase env alternateSchema) \<or>
      prefix ''https://'' (toLowerCase env alternateSchema))"

definition alternateSchemaOf :: "env \<Rightarrow> extensionContext \<Rightarrow> string" where
  "alternateSchemaOf env context =
     (if trim env (customSchemaFile env) = []
      then path_join env (extensionPath context) ''service-schema.json''
      else customSchemaFile env)"

definition staticSchemaUri ::
  "env \<Rightarrow> extensionContext \<Rightarrow> workspaceFolder option \<Rightarrow> error + uri" where
  "staticSchemaUri env context workspaceFolder =
     (if hasHttpScheme env (alternateSchemaOf env context)
      then Uri_parse env (alternateSchemaOf env context)
      else if path_isAbsolute env (alternateSchemaOf env context)
      then Inr (Uri_file env (alternateSchemaOf env context))
      else (case workspaceFolder of
              Some folder \<Rightarrow>
                Inr (Uri_file env (path_join env (fsPath folder) (alternateSchemaOf env context)))
            | None \<Rightarrow>
                Inr (Uri_file env (path_join env (extensionPath context) ''service-schema.json''))))"

text \<open>
  Lines 32 to 51: detection, only with a folder, and with every error caught.
\<close>

definition detected ::
  "env \<Rightarrow> extensionContext \<Rightarrow> workspaceFolder option \<Rightarrow> uri option io" where
  "detected env context workspaceFolder =
     (case workspaceFolder of
        None \<Rightarrow> ret None
      | Some folder \<Rightarrow>
          attempt
            (andThen (emit (Log (DetectingSchema (name folder)))) (\<lambda>_.
             andThen (autoDetectSchema env context folder) (\<lambda>schemaUri.
               case schemaUri of
                 None \<Rightarrow> ret None
               | Some u \<Rightarrow>
                   andThen (emit (Log (DetectedSchema (name folder) (path u)))) (\<lambda>_.
                   ret (Some u)))))
            (\<lambda>error.
               andThen (emit (Log (ErrorAutoDetecting (name folder) error))) (\<lambda>_. ret None)))"

text \<open>
  The message of line 70 reads \<^verbatim>\<open>workspaceFolder.name\<close> whether or not there is a folder.
\<close>

definition locateSchemaFile ::
  "env \<Rightarrow> extensionContext \<Rightarrow> workspaceFolder option \<Rightarrow> string io" where
  "locateSchemaFile env context workspaceFolder =
     andThen (detected env context workspaceFolder) (\<lambda>schemaUri.
       case schemaUri of
         Some u \<Rightarrow> ret (path u)
       | None \<Rightarrow>
           andThen (outcome (staticSchemaUri env context workspaceFolder)) (\<lambda>u.
             case workspaceFolder of
               None \<Rightarrow> raise TypeError
             | Some folder \<Rightarrow>
                 andThen (emit (Log (UsingHardcodedSchema (name folder) (path u)))) (\<lambda>_.
                 ret (path u))))"

text \<open>Lines 88 to 90.\<close>

definition getSchemaAssociation :: "string \<Rightarrow> (string \<times> string list) list" where
  "getSchemaAssociation schemaFilePath = [(''*'', [schemaFilePath])]"

subsection \<open>Vocabulary of the statements\<close>

text \<open>
  \<open>emits P m\<close>: whatever \<open>m\<close> adds to the trace satisfies \<open>P\<close>, and it only adds.
  \<open>keeps f m\<close>: \<open>m\<close> leaves the component \<open>f\<close> of the state as it was.
\<close>

definition emits :: "(effect \<Rightarrow> bool) \<Rightarrow> 'a io \<Rightarrow> bool" where
  "emits P m = (\<forall>st. \<exists>es. trace (snd (m st)) = trace st @ es \<and> list_all P es)"

definition keeps :: "(state \<Rightarrow> 'b) \<Rightarrow> 'a io \<Rightarrow> bool" where
  "keeps f m = (\<forall>st. f (snd (m st)) = f st)"

text \<open>
  The test of line 148 on the URL that lines 124 to 144 find. That URL does not depend on
  the state (lemma \<open>getRemoteUrl_value\<close>), so it is read off a run from \<open>initial\<close>.
\<close>

definition recognizedRemote :: "env \<Rightarrow> workspaceFolder \<Rightarrow> bool" where
  "recognizedRemote env workspaceFolder =
     (case fst (getRemoteUrl env workspaceFolder initial) of
        Inr (Some url) \<Rightarrow> isAzureReposUrl env url
      | _ \<Rightarrow> False)"

text \<open>
  A session has access to an organization when the list it returns holds the name, compared
  in lower case. A session whose query throws has no list.
\<close>

definition hasAccess :: "env \<Rightarrow> string \<Rightarrow> session \<Rightarrow> bool" where
  "hasAccess env organizationName s =
     (case listOrganizations env s of
        Inl e \<Rightarrow> False
      | Inr organizations \<Rightarrow>
          list_ex (\<lambda>accountName. toLowerCase env accountName = toLowerCase env organizationName)
            organizations)"

text \<open>
  The static location as claim C4 words it: an empty setting gives the bundled file; a
  setting with an http(s) scheme is parsed; an absolute one is a file; any other one is
  joined to the workspace root, or to the installation root when there is no workspace.
\<close>

definition claimedSchemaUri ::
  "env \<Rightarrow> extensionContext \<Rightarrow> workspaceFolder option \<Rightarrow> error + uri" where
  "claimedSchemaUri env context workspaceFolder =
     (if trim env (customSchemaFile env) = []
      then Inr (Uri_file env (path_join env (extensionPath context) ''service-schema.json''))
      else if hasHttpScheme env (customSchemaFile env)
      then Uri_parse env (customSchemaFile env)
      else if path_isAbsolute env (customSchemaFile env)
      then Inr (Uri_file env (customSchemaFile env))
      else (case workspaceFolder of
              Some folder \<Rightarrow>
                Inr (Uri_file env (path_join env (fsPath folder) (customSchemaFile env)))
            | None \<Rightarrow>
                Inr (Uri_file env (path_join env (extensionPath context) (customSchemaFile env)))))"

subsection \<open>Sample collaborators\<close>

text \<open>
  One concrete environment, on which the definitions above are evaluated: a POSIX-like
  platform, one signed-in session with access to the organization \<^verbatim>\<open>Contoso\<close>, a user
  who picks the first entry of a quick pick, and collaborators that do not fail.
\<close>

definition lowerChar :: "char \<Rightarrow> char" where
  "lowerChar c =
     (case map_of (zip ''ABCDEFGHIJKLMNOPQRSTUVWXYZ'' ''abcdefghijklmnopqrstuvwxyz'') c of
        None \<Rightarrow> c
      | Some l \<Rightarrow> l)"

definition sampleTrim :: "string \<Rightarrow> string" where
  "sampleTrim s =
     rev (dropWhile (\<lambda>c. c = CHR '' '') (rev (dropWhile (\<lambda>c. c = CHR '' '') s)))"

definition sampleParse :: "string \<Rightarrow> error + uri" where
  "sampleParse value =
     (let schemeOf = takeWhile (\<lambda>c. c \<notin> set '':/?#'') value;
          afterScheme = drop (length schemeOf) value;
          rest = drop 1 afterScheme;
          authorityOf = (if take 2 rest = ''//''
                         then takeWhile (\<lambda>c. c \<notin> set ''/?#'') (drop 2 rest) else []);
          afterAuthority = (if take 2 rest = ''//''
                            then drop (2 + length authorityOf) rest else rest);
          pathOf = takeWhile (\<lambda>c. c \<notin> set ''?#'') afterAuthority;
          afterPath = drop (length pathOf) afterAuthority
      in if schemeOf = [] \<or> take 1 afterScheme \<noteq> '':''
         then Inl (Thrown ''[UriError]: Scheme is missing'')
         else Inr \<lparr>scheme = schemeOf, authority = authorityOf,
                   path = (if pathOf = [] then ''/'' else pathOf),
                   query = (if take 1 afterPath = ''?''
                            then takeWhile (\<lambda>c. c \<noteq> CHR ''#'') (drop 1 afterPath) else []),
                   fragment = drop 1 (dropWhile (\<lambda>c. c \<noteq> CHR ''#'') afterPath)\<rparr>)"

definition alice :: session where
  "alice = \<lparr>userId = ''alice'', tenantId = ''tenant-1''\<rparr>"

definition repoA :: workspaceFolder where
  "repoA = \<lparr>name = ''repo-a'', fsPath = ''/work/repo-a''\<rparr>"

definition repoB :: workspaceFolder where
  "repoB = \<lparr>name = ''repo-b'', fsPath = ''/work/repo-b''\<rparr>"

definition sampleContext :: extensionContext where
  "sampleContext =
     \<lparr>extensionPath = ''/ext'',
      globalStorageUri = \<lparr>scheme = ''file'', authority = [], path = ''/storage'',
                          query = [], fragment = []\<rparr>\<rparr>"

definition sampleEnv :: env where
  "sampleEnv =
     \<lparr>toLowerCase = map lowerChar,
      trim = sampleTrim,
      path_join = (\<lambda>a b. a @ ''/'' @ b),
      path_isAbsolute = (\<lambda>p. take 1 p = ''/''),
      Uri_parse = sampleParse,
      Uri_file = (\<lambda>p. \<lparr>scheme = ''file'', authority = [], path = p, query = [], fragment = []\<rparr>),
      joinPath = (\<lambda>u segment. u\<lparr>path := path u @ ''/'' @ segment\<rparr>),
      customSchemaFile = [],
      signInLabel = ''Sign in'',
      selectOrganizationLabel = ''Select organization'',
      getAzureAccountExtensionApi = Inr (),
      waitForSubscriptions = Inr True,
      sessions = [alice],
      getGitExtensionApi = Inr (),
      openRepository = (\<lambda>folder. Inr None),
      isAzureReposUrl = (\<lambda>url. prefix ''https://dev.azure.com/'' url),
      getRepositoryDetailsFromRemoteUrl =
        (\<lambda>url. Inr (takeWhile (\<lambda>c. c \<noteq> CHR ''/'') (drop 22 url))),
      listOrganizations = (\<lambda>s. Inr [''Contoso'']),
      createDirectory = (\<lambda>u. Inr ()),
      getToken = (\<lambda>s. Inr ''token''),
      getTaskAgentApi = (\<lambda>url token. Inr ()),
      getYamlSchema = (\<lambda>url token. Inr ''{}''),
      writeFile = (\<lambda>u content. Inr ()),
      showQuickPick = (\<lambda>items. Inr (case items of Some (item # _) \<Rightarrow> Some item | _ \<Rightarrow> None)),
      workspaceState_update = (\<lambda>m. Inr ())\<rparr>"

text \<open>The same with an Azure Repos remote behind every folder.\<close>

definition azureRepo :: repository where
  "azureRepo =
     \<lparr>status = Inr (), upstream = Some ''origin'',
      remotes = [\<lparr>remoteName = ''origin'',
                  fetchUrl = Some ''https://dev.azure.com/contoso/project/_git/repo''\<rparr>]\<rparr>"

definition azureEnv :: env where
  "azureEnv = sampleEnv\<lparr>openRepository := (\<lambda>folder. Inr (Some azureRepo))\<rparr>"

text \<open>A stored choice for \<^verbatim>\<open>repo-a\<close> whose tenant has no session.\<close>

definition revoked :: state where
  "revoked = initial\<lparr>azurePipelinesDetails :=
     Some [''repo-a'' \<mapsto> \<lparr>organization = ''contoso'', tenant = ''tenant-2''\<rparr>]\<rparr>"

text \<open>Three sessions, of which the second and the third have access to \<^verbatim>\<open>Contoso\<close>.\<close>

definition bob :: session where
  "bob = \<lparr>userId = ''bob'', tenantId = ''tenant-2''\<rparr>"

definition twoSessions :: env where
  "twoSessions = sampleEnv\<lparr>sessions := [bob, alice, alice\<lparr>userId := ''carol''\<rparr>],
     listOrganizations := (\<lambda>s. if userId s = ''bob'' then Inr [''Fabrikam'']
                                else Inr [''Fabrikam'', ''Contoso''])\<rparr>"

text \<open>A user who answers the message and then closes the quick pick.\<close>

definition cancelling :: env where
  "cancelling = sampleEnv\<lparr>showQuickPick := (\<lambda>items. Inr None)\<rparr>"

text \<open>
  Two folders of one window, neither with an Azure Repos remote nor a stored choice. Both
  are resolved, which leaves two messages on screen; the user then answers the one of
  \<^verbatim>\<open>repo-a\<close> and picks an organization, and after that the one of \<^verbatim>\<open>repo-b\<close>.
\<close>

definition afterPromptA :: state where
  "afterPromptA = snd (locateSchemaFile sampleEnv sampleContext (Some repoA) initial)"

definition afterPromptB :: state where
  "afterPromptB = snd (locateSchemaFile sampleEnv sampleContext (Some repoB) afterPromptA)"

definition afterChoiceA :: state where
  "afterChoiceA =
     snd (answer sampleEnv (SelectOrganizationPrompt repoA None)
            (Some ''Select organization'') afterPromptB)"

definition afterChoiceB :: state where
  "afterChoiceB =
     snd (answer sampleEnv (SelectOrganizationPrompt repoB None)
            (Some ''Select organization'') afterChoiceA)"

text \<open>The user answers a message for \<^verbatim>\<open>repo-a\<close> right away and picks an organization.\<close>

definition chosenA :: state where
  "chosenA =
     snd (selectOrganizationAnswered sampleEnv repoA None (Some ''Select organization'') initial)"

text \<open>The Azure Repos environment with a disk that refuses the write.\<close>

definition failingWrite :: env where
  "failingWrite = azureEnv\<lparr>writeFile := (\<lambda>u content. Inl (Thrown ''EACCES''))\<rparr>"

text \<open>The state after one successful resolution of \<^verbatim>\<open>repo-a\<close> with its Azure Repos remote.\<close>

definition onceResolved :: state where
  "onceResolved = snd (autoDetectSchema azureEnv sampleContext repoA initial)"

text \<open>The sample environment with a relative setting, and with a URL.\<close>

definition relativeSetting :: env where
  "relativeSetting = sampleEnv\<lparr>customSchemaFile := ''schemas/custom.json''\<rparr>"

definition urlSetting :: env where
  "urlSetting = sampleEnv\<lparr>customSchemaFile := ''https://host/p/q''\<rparr>"

section \<open>Properties of the model\<close>

subsection \<open>Sequencing and traces\<close>

lemmas io_defs = ret_def raise_def andThen_def attempt_def emit_def await_def outcome_def
  reading_def modify_def

lemma andThen_Inr: "m st = (Inr x, st1) \<Longrightarrow> andThen m f st = f x st1"
  by (simp add: andThen_def)

lemma andThen_Inl: "m st = (Inl e, st1) \<Longrightarrow> andThen m f st = (Inl e, st1)"
  by (simp add: andThen_def)

lemma andThen_outcome_Inr: "andThen (outcome (Inr x)) f = f x"
  by (rule ext) (simp add: andThen_def outcome_def)

lemma andThen_outcome_Inl: "andThen (outcome (Inl e)) f = raise e"
  by (rule ext) (simp add: andThen_def outcome_def raise_def)

lemma emits_ret: "emits P (ret x)"
  by (simp add: emits_def ret_def)

lemma emits_raise: "emits P (raise e)"
  by (simp add: emits_def raise_def)

lemma emits_outcome: "emits P (outcome r)"
  by (simp add: emits_def outcome_def)

lemma emits_emit: "P e \<Longrightarrow> emits P (emit e)"
  by (simp add: emits_def emit_def)

lemma emits_await: "P e \<Longrightarrow> emits P (await e r)"
  by (simp add: emits_def await_def)

lemma emits_modify: "(\<And>st. trace (f st) = trace st) \<Longrightarrow> emits P (modify f)"
  by (simp add: emits_def modify_def)

lemma emits_reading: "(\<And>st. emits P (f st)) \<Longrightarrow> emits P (reading f)"
  by (simp add: emits_def reading_def)

lemma emits_andThen:
  assumes "emits P m" and "\<And>x. emits P (f x)"
  shows "emits P (andThen m f)"
  unfolding emits_def
proof
  fix st
  obtain r st1 where m: "m st = (r, st1)" by (cases "m st")
  from assms(1) m obtain es1 where es1: "trace st1 = trace st @ es1" "list_all P es1"
    unfolding emits_def by (metis snd_conv)
  show "\<exists>es. trace (snd (andThen m f st)) = trace st @ es \<and> list_all P es"
  proof (cases r)
    case (Inl e)
    with m es1 show ?thesis by (auto simp: andThen_def)
  next
    case (Inr x)
    from assms(2)[of x] obtain es2 where
      "trace (snd (f x st1)) = trace st1 @ es2" "list_all P es2"
      unfolding emits_def by blast
    with m es1 Inr show ?thesis by (auto simp: andThen_def)
  qed
qed

lemma emits_attempt:
  assumes "emits P m" and "\<And>e. emits P (h e)"
  shows "emits P (attempt m h)"
  unfolding emits_def
proof
  fix st
  obtain r st1 where m: "m st = (r, st1)" by (cases "m st")
  from assms(1) m obtain es1 where es1: "trace st1 = trace st @ es1" "list_all P es1"
    unfolding emits_def by (metis snd_conv)
  show "\<exists>es. trace (snd (attempt m h st)) = trace st @ es \<and> list_all P es"
  proof (cases r)
    case (Inr x)
    with m es1 show ?thesis by (auto simp: attempt_def)
  next
    case (Inl e)
    from assms(2)[of e] obtain es2 where
      "trace (snd (h e st1)) = trace st1 @ es2" "list_all P es2"
      unfolding emits_def by blast
    with m es1 Inl show ?thesis by (auto simp: attempt_def)
  qed
qed

lemmas emits_intros = emits_ret emits_raise emits_outcome emits_emit emits_await emits_modify
  emits_reading emits_andThen emits_attempt

lemma emits_case_option:
  "emits P a \<Longrightarrow> (\<And>y. emits P (b y)) \<Longrightarrow> emits P (case x of None \<Rightarrow> a | Some y \<Rightarrow> b y)"
  by (cases x) simp_all

lemma emits_if: "emits P a \<Longrightarrow> emits P b \<Longrightarrow> emits P (if c then a else b)"
  by simp

lemmas emits_rules = emits_intros emits_case_option emits_if

lemma emitsD:
  assumes "emits P m" and "m st = (r, st')"
  shows "\<exists>es. trace st' = trace st @ es \<and> list_all P es"
proof -
  from assms(1) obtain es where "trace (snd (m st)) = trace st @ es" "list_all P es"
    unfolding emits_def by blast
  with assms(2) show ?thesis by auto
qed

lemma emitted_append [simp]: "emitted st (st\<lparr>trace := trace st @ es\<rparr>) = es"
  by (simp add: emitted_def)

lemma keeps_ret: "keeps f (ret x)"
  by (simp add: keeps_def ret_def)

lemma keeps_raise: "keeps f (raise e)"
  by (simp add: keeps_def raise_def)

lemma keeps_outcome: "keeps f (outcome r)"
  by (simp add: keeps_def outcome_def)

lemma keeps_emit: "(\<And>st t. f (st\<lparr>trace := t\<rparr>) = f st) \<Longrightarrow> keeps f (emit e)"
  by (simp add: keeps_def emit_def)

lemma keeps_await: "(\<And>st t. f (st\<lparr>trace := t\<rparr>) = f st) \<Longrightarrow> keeps f (await e r)"
  by (simp add: keeps_def await_def)

lemma keeps_modify: "(\<And>st. f (h st) = f st) \<Longrightarrow> keeps f (modify h)"
  by (simp add: keeps_def modify_def)

lemma keeps_reading: "(\<And>st. keeps f (g st)) \<Longrightarrow> keeps f (reading g)"
  by (simp add: keeps_def reading_def)

lemma keeps_andThen:
  assumes "keeps f m" and "\<And>x. keeps f (g x)"
  shows "keeps f (andThen m g)"
  unfolding keeps_def
proof
  fix st
  obtain r st1 where m: "m st = (r, st1)" by (cases "m st")
  with assms(1) have "f st1 = f st" unfolding keeps_def by (metis snd_conv)
  with m assms(2) show "f (snd (andThen m g st)) = f st"
    by (cases r) (auto simp: andThen_def keeps_def)
qed

lemma keeps_attempt:
  assumes "keeps f m" and "\<And>e. keeps f (h e)"
  shows "keeps f (attempt m h)"
  unfolding keeps_def
proof
  fix st
  obtain r st1 where m: "m st = (r, st1)" by (cases "m st")
  with assms(1) have "f st1 = f st" unfolding keeps_def by (metis snd_conv)
  with m assms(2) show "f (snd (attempt m h st)) = f st"
    by (cases r) (auto simp: attempt_def keeps_def)
qed

lemmas keeps_intros = keeps_ret keeps_raise keeps_outcome keeps_emit keeps_await keeps_modify
  keeps_reading keeps_andThen keeps_attempt

lemma keeps_case_option:
  "keeps f a \<Longrightarrow> (\<And>y. keeps f (b y)) \<Longrightarrow> keeps f (case x of None \<Rightarrow> a | Some y \<Rightarrow> b y)"
  by (cases x) simp_all

lemma keeps_if: "keeps f a \<Longrightarrow> keeps f b \<Longrightarrow> keeps f (if c then a else b)"
  by simp

lemma keeps_case_prod:
  "(\<And>a b. keeps f (g a b)) \<Longrightarrow> keeps f (case y of (a, b) \<Rightarrow> g a b)"
  by (cases y) simp

lemma keeps_case_resolution:
  "keeps f a \<Longrightarrow> (\<And>org s. keeps f (b org s)) \<Longrightarrow>
   keeps f (case x of Prompted \<Rightarrow> a | Resolved org s \<Rightarrow> b org s)"
  by (cases x) simp_all

lemmas keeps_rules = keeps_intros keeps_case_option keeps_if

lemma keepsD: "keeps f m \<Longrightarrow> m st = (r, st') \<Longrightarrow> f st' = f st"
  unfolding keeps_def by (metis snd_conv)

lemma storedChoice_trace [simp]: "storedChoice (st\<lparr>trace := t\<rparr>) n = storedChoice st n"
  by (simp add: storedChoice_def)

subsection \<open>The remote URL\<close>

lemma getRemoteUrl_run:
  "\<exists>url ls. getRemoteUrl env w st = (Inr url, st\<lparr>trace := trace st @ map Log ls\<rparr>) \<and>
     fst (getRemoteUrl env w st0) = Inr url"
proof -
  have nil: "st = st\<lparr>trace := trace st @ map Log []\<rparr>" by simp
  have one: "\<And>l. st\<lparr>trace := trace st @ [Log l]\<rparr> = st\<lparr>trace := trace st @ map Log [l]\<rparr>" by simp
  show ?thesis
    unfolding getRemoteUrl_def io_defs
    apply (simp split: sum.splits option.splits prod.splits)
    apply (intro conjI allI impI)
    apply (auto intro: exI[of _ "[]"] exI[of _ "[l]" for l] nil one)
    done
qed

lemma getRemoteUrl_value: "fst (getRemoteUrl env w st) = fst (getRemoteUrl env w initial)"
  using getRemoteUrl_run[of env w st initial] by auto

lemma getRemoteUrl_recognized:
  "\<exists>url ls. getRemoteUrl env w st = (Inr url, st\<lparr>trace := trace st @ map Log ls\<rparr>) \<and>
     recognizedRemote env w = (case url of None \<Rightarrow> False | Some u \<Rightarrow> isAzureReposUrl env u)"
proof -
  from getRemoteUrl_run[of env w st initial] obtain url ls where
    run: "getRemoteUrl env w st = (Inr url, st\<lparr>trace := trace st @ map Log ls\<rparr>)"
    and val: "fst (getRemoteUrl env w initial) = Inr url"
    by blast
  have "recognizedRemote env w = (case url of None \<Rightarrow> False | Some u \<Rightarrow> isAzureReposUrl env u)"
    by (simp add: recognizedRemote_def val split: option.splits)
  with run show ?thesis by blast
qed

lemma keeps_getRemoteUrl:
  "(\<And>st t. f (st\<lparr>trace := t\<rparr>) = f st) \<Longrightarrow> keeps f (getRemoteUrl env w)"
  unfolding getRemoteUrl_def by (intro keeps_rules) simp_all

lemma emits_getRemoteUrl: "(\<And>l. P (Log l)) \<Longrightarrow> emits P (getRemoteUrl env w)"
  unfolding getRemoteUrl_def by (intro emits_rules) simp_all

subsection \<open>The session matcher\<close>

lemma hasOrganization_iff:
  "hasOrganization env org orgs \<longleftrightarrow>
     list_ex (\<lambda>accountName. toLowerCase env accountName = toLowerCase env org) orgs"
  by (induction orgs) (auto simp: hasOrganization_def)

lemma findSession_Cons:
  "findSession env org (s # ss) =
     andThen (await (ListOrganizations s) (listOrganizations env s)) (\<lambda>organizations.
       if hasOrganization env org organizations then ret (Some s) else findSession env org ss)"
  by (rule ext) (simp add: andThen_def ret_def split: prod.splits sum.splits)

lemma keeps_findSession:
  "(\<And>st t. f (st\<lparr>trace := t\<rparr>) = f st) \<Longrightarrow> keeps f (findSession env org ss)"
proof (induction ss)
  case Nil
  show ?case by (simp add: keeps_def)
next
  case (Cons s ss)
  show ?case unfolding findSession_Cons by (intro keeps_rules Cons.IH) (simp_all add: Cons.prems)
qed

lemma emits_findSession:
  "(\<And>s. P (ListOrganizations s)) \<Longrightarrow> emits P (findSession env org ss)"
proof (induction ss)
  case Nil
  show ?case by (simp add: emits_def)
next
  case (Cons s ss)
  show ?case unfolding findSession_Cons by (intro emits_rules Cons.IH) (simp_all add: Cons.prems)
qed

lemma findSession_run:
  assumes "\<forall>s\<in>set (takeWhile (\<lambda>s. \<not> hasAccess env org s) ss).
             \<exists>organizations. listOrganizations env s = Inr organizations"
  shows "findSession env org ss st =
           (Inr (find (hasAccess env org) ss),
            st\<lparr>trace := trace st @ map ListOrganizations
                 (takeWhile (\<lambda>s. \<not> hasAccess env org s) ss @
                  (case find (hasAccess env org) ss of None \<Rightarrow> [] | Some s \<Rightarrow> [s]))\<rparr>)"
  using assms
proof (induction ss arbitrary: st)
  case Nil
  show ?case by simp
next
  case (Cons s ss)
  show ?case
  proof (cases "hasAccess env org s")
    case True
    then show ?thesis
      by (auto simp: hasAccess_def hasOrganization_iff await_def split: sum.splits)
  next
    case False
    with Cons.prems obtain organizations where
      l: "listOrganizations env s = Inr organizations" by auto
    with False have no: "\<not> hasOrganization env org organizations"
      by (simp add: hasAccess_def hasOrganization_iff)
    from Cons.prems False have
      "\<forall>s\<in>set (takeWhile (\<lambda>s. \<not> hasAccess env org s) ss).
         \<exists>organizations. listOrganizations env s = Inr organizations"
      by simp
    from Cons.IH[OF this, of "st\<lparr>trace := trace st @ [ListOrganizations s]\<rparr>"] l no False
    show ?thesis by (simp add: await_def)
  qed
qed

subsection \<open>Organization and session\<close>

lemma fromWorkspaceState_no_session:
  assumes "storedChoice st (name w) = Some d"
    and "find (\<lambda>s. tenantId s = tenant d) (sessions env) = None"
  shows "fromWorkspaceState env w st =
           (Inl TypeError, st\<lparr>trace := trace st @ [Log (NotAzureRepo (name w))]\<rparr>)"
  using assms by (simp add: fromWorkspaceState_def io_defs)

lemma fromWorkspaceState_stored:
  assumes "storedChoice st (name w) = Some d"
    and "find (\<lambda>s. tenantId s = tenant d) (sessions env) = Some s"
  shows "fromWorkspaceState env w st =
           (Inr (Resolved (organization d) (Some s)),
            st\<lparr>trace := trace st @ map Log [NotAzureRepo (name w),
               UsingCachedInformation (name w) (organization d) (tenantId s)]\<rparr>)"
  using assms by (simp add: fromWorkspaceState_def io_defs)

lemma fromWorkspaceState_prompt:
  assumes "storedChoice st (name w) = None"
  shows "fromWorkspaceState env w st =
           (Inr Prompted,
            st\<lparr>pending := pending st @ [SelectOrganizationPrompt w (azurePipelinesDetails st)],
               trace := trace st @ [Log (NotAzureRepo (name w)),
                 Log (PromptingForOrganization (name w)),
                 ShowInformationMessage (SelectOrganizationForEnhancedIntelliSense (name w))
                   (selectOrganizationLabel env)]\<rparr>)"
  using assms by (simp add: fromWorkspaceState_def io_defs)

lemma keeps_fromWorkspaceState:
  assumes "\<And>st t. f (st\<lparr>trace := t\<rparr>) = f st" and "\<And>st p. f (st\<lparr>pending := p\<rparr>) = f st"
  shows "keeps f (fromWorkspaceState env w)"
  unfolding fromWorkspaceState_def by (intro keeps_rules) (simp_all add: assms)

lemma emits_fromWorkspaceState:
  assumes "\<And>l. P (Log l)" and "\<And>m l. P (ShowInformationMessage m l)"
  shows "emits P (fromWorkspaceState env w)"
  unfolding fromWorkspaceState_def by (intro emits_rules) (simp_all add: assms)

lemma keeps_fromRemoteUrl:
  assumes "\<And>st t. f (st\<lparr>trace := t\<rparr>) = f st"
  shows "keeps f (fromRemoteUrl env w url)"
  unfolding fromRemoteUrl_def by (intro keeps_rules keeps_findSession) (simp_all add: assms)

lemma emits_fromRemoteUrl:
  assumes "\<And>l. P (Log l)" and "\<And>s. P (ListOrganizations s)"
  shows "emits P (fromRemoteUrl env w url)"
  unfolding fromRemoteUrl_def by (intro emits_rules emits_findSession) (simp_all add: assms)

lemma identify_unrecognized:
  assumes "\<not> recognizedRemote env w"
  shows "\<exists>ls. identify env w st =
           fromWorkspaceState env w (st\<lparr>trace := trace st @ map Log ls\<rparr>)"
proof -
  from getRemoteUrl_recognized[of env w st] obtain url ls where
    run: "getRemoteUrl env w st = (Inr url, st\<lparr>trace := trace st @ map Log ls\<rparr>)"
    and rec: "recognizedRemote env w = (case url of None \<Rightarrow> False | Some u \<Rightarrow> isAzureReposUrl env u)"
    by blast
  from rec assms have "resolveOrganization env w url = fromWorkspaceState env w"
    by (simp add: resolveOrganization_def split: option.splits)
  with run have "identify env w st = fromWorkspaceState env w (st\<lparr>trace := trace st @ map Log ls\<rparr>)"
    by (simp add: identify_def andThen_def)
  then show ?thesis by blast
qed

lemma keeps_identify:
  assumes "\<And>st t. f (st\<lparr>trace := t\<rparr>) = f st" and "\<And>st p. f (st\<lparr>pending := p\<rparr>) = f st"
  shows "keeps f (identify env w)"
  unfolding identify_def resolveOrganization_def
  by (intro keeps_rules keeps_getRemoteUrl keeps_fromRemoteUrl keeps_fromWorkspaceState)
     (simp_all add: assms)

lemma emits_identify:
  assumes "\<And>l. P (Log l)" and "\<And>s. P (ListOrganizations s)"
    and "\<And>m l. P (ShowInformationMessage m l)"
  shows "emits P (identify env w)"
  unfolding identify_def resolveOrganization_def
  by (intro emits_rules emits_getRemoteUrl emits_fromRemoteUrl emits_fromWorkspaceState)
     (simp_all add: assms)

text \<open>What a run of the identity phase leaves behind.\<close>

lemma identify_frame:
  assumes "identify env w st = (r, st1)"
  shows "seenOrganizations st1 = seenOrganizations st"
    and "azurePipelinesDetails st1 = azurePipelinesDetails st"
    and "\<exists>es. trace st1 = trace st @ es \<and>
           list_all (\<lambda>e. \<not> isSchemaFetch e \<and> \<not> isErrorMessage e \<and> \<not> isFire e \<and>
                        (isNetworkCall e \<longrightarrow> (\<exists>s. e = ListOrganizations s))) es"
proof -
  have "keeps seenOrganizations (identify env w)" by (rule keeps_identify) simp_all
  from keepsD[OF this assms] show "seenOrganizations st1 = seenOrganizations st" .
  have "keeps azurePipelinesDetails (identify env w)" by (rule keeps_identify) simp_all
  from keepsD[OF this assms] show "azurePipelinesDetails st1 = azurePipelinesDetails st" .
  have "emits (\<lambda>e. \<not> isSchemaFetch e \<and> \<not> isErrorMessage e \<and> \<not> isFire e \<and>
                  (isNetworkCall e \<longrightarrow> (\<exists>s. e = ListOrganizations s))) (identify env w)"
    by (rule emits_identify) simp_all
  from emitsD[OF this assms] show "\<exists>es. trace st1 = trace st @ es \<and>
           list_all (\<lambda>e. \<not> isSchemaFetch e \<and> \<not> isErrorMessage e \<and> \<not> isFire e \<and>
                        (isNetworkCall e \<longrightarrow> (\<exists>s. e = ListOrganizations s))) es" .
qed

subsection \<open>The cache and the fetch\<close>

lemma emits_fetchSchema:
  assumes "\<And>l. P (Log l)" "\<And>u. P (CreateDirectory u)" "\<And>s. P (GetToken s)"
    "\<And>url. P (GetTaskAgentApi url)" "\<And>url. P (GetYamlSchema url)" "\<And>u c. P (WriteFile u c)"
  shows "emits P (fetchSchema env context w org s)"
  unfolding fetchSchema_def using assms by (auto intro!: emits_intros)

lemma keeps_fetchSchema:
  assumes "\<And>st t. f (st\<lparr>trace := t\<rparr>) = f st"
    and "\<And>st S. f (st\<lparr>seenOrganizations := S\<rparr>) = f st"
  shows "keeps f (fetchSchema env context w org s)"
  unfolding fetchSchema_def using assms by (auto intro!: keeps_intros)

lemma fetchSchema_run:
  assumes "fetchSchema env context w org s st = (r, st')"
  obtains
    (failed) e es where "r = Inl e" "st' = st\<lparr>trace := trace st @ es\<rparr>"
      "org \<notin> seenOrganizations st \<Longrightarrow> createDirectory env (globalStorageUri context) = Inr ()
         \<Longrightarrow> GetToken s \<in> set es"
      "org \<in> seenOrganizations st \<Longrightarrow> es = [CreateDirectory (globalStorageUri context)] \<and>
         createDirectory env (globalStorageUri context) = Inl e"
  | (cached) "org \<in> seenOrganizations st" "r = Inr (schemaUriOf env context org)"
      "st' = st\<lparr>trace := trace st @ [CreateDirectory (globalStorageUri context),
                                      Log (ReturningCachedSchema (name w))]\<rparr>"
  | (fetched) schema where "org \<notin> seenOrganizations st"
      "r = Inr (schemaUriOf env context org)"
      "writeFile env (schemaUriOf env context org) schema = Inr ()"
      "st' = st\<lparr>seenOrganizations := insert org (seenOrganizations st),
                 trace := trace st @ [CreateDirectory (globalStorageUri context),
                   Log (RetrievingSchema (name w)), GetToken s, GetTaskAgentApi (serverUrl org),
                   GetYamlSchema (serverUrl org), WriteFile (schemaUriOf env context org) schema]\<rparr>"
proof -
  note defs = fetchSchema_def io_defs
  let ?dir = "CreateDirectory (globalStorageUri context)"
  show ?thesis
  proof (cases "createDirectory env (globalStorageUri context)")
    case (Inl e)
    then have "fetchSchema env context w org s st = (Inl e, st\<lparr>trace := trace st @ [?dir]\<rparr>)"
      by (simp add: defs)
    with assms Inl show ?thesis by (intro failed[of e "[?dir]"]) simp_all
  next
    case dir: (Inr u)
    show ?thesis
    proof (cases "org \<in> seenOrganizations st")
      case True
      with dir have "fetchSchema env context w org s st = (Inr (schemaUriOf env context org),
          st\<lparr>trace := trace st @ [?dir, Log (ReturningCachedSchema (name w))]\<rparr>)"
        by (simp add: defs)
      with assms True show ?thesis by (intro cached) simp_all
    next
      case False
      let ?pre = "[?dir, Log (RetrievingSchema (name w)), GetToken s]"
      show ?thesis
      proof (cases "getToken env s")
        case (Inl e)
        with dir False have "fetchSchema env context w org s st =
            (Inl e, st\<lparr>trace := trace st @ ?pre\<rparr>)"
          by (simp add: defs)
        with assms False show ?thesis by (intro failed[of e ?pre]) simp_all
      next
        case tok: (Inr token)
        show ?thesis
        proof (cases "getTaskAgentApi env (serverUrl org) token")
          case (Inl e)
          with dir False tok have "fetchSchema env context w org s st =
              (Inl e, st\<lparr>trace := trace st @ ?pre @ [GetTaskAgentApi (serverUrl org)]\<rparr>)"
            by (simp add: defs)
          with assms False show ?thesis
            by (intro failed[of e "?pre @ [GetTaskAgentApi (serverUrl org)]"]) simp_all
        next
          case api: (Inr u')
          let ?pre2 = "?pre @ [GetTaskAgentApi (serverUrl org), GetYamlSchema (serverUrl org)]"
          show ?thesis
          proof (cases "getYamlSchema env (serverUrl org) token")
            case (Inl e)
            with dir False tok api have "fetchSchema env context w org s st =
                (Inl e, st\<lparr>trace := trace st @ ?pre2\<rparr>)"
              by (simp add: defs)
            with assms False show ?thesis by (intro failed[of e ?pre2]) simp_all
          next
            case sch: (Inr schema)
            let ?w = "WriteFile (schemaUriOf env context org) schema"
            show ?thesis
            proof (cases "writeFile env (schemaUriOf env context org) schema")
              case (Inl e)
              with dir False tok api sch have "fetchSchema env context w org s st =
                  (Inl e, st\<lparr>trace := trace st @ ?pre2 @ [?w]\<rparr>)"
                by (simp add: defs)
              with assms False show ?thesis by (intro failed[of e "?pre2 @ [?w]"]) simp_all
            next
              case (Inr u'')
              with dir False tok api sch have "fetchSchema env context w org s st =
                  (Inr (schemaUriOf env context org),
                   st\<lparr>seenOrganizations := insert org (seenOrganizations st),
                      trace := trace st @ ?pre2 @ [?w]\<rparr>)"
                by (simp add: defs)
              with assms False Inr show ?thesis by (intro fetched[of schema]) simp_all
            qed
          qed
        qed
      qed
    qed
  qed
qed

text \<open>The run of lines 243 to 270 for an organization that is not in the set, call by call.\<close>

lemma fetchSchema_fresh:
  assumes "org \<notin> seenOrganizations st"
  shows "fetchSchema env ctx w org s st =
    (case createDirectory env (globalStorageUri ctx) of
       Inl e \<Rightarrow> (Inl e, st\<lparr>trace := trace st @ [CreateDirectory (globalStorageUri ctx)]\<rparr>)
     | Inr _ \<Rightarrow>
    (case getToken env s of
       Inl e \<Rightarrow> (Inl e, st\<lparr>trace := trace st @ [CreateDirectory (globalStorageUri ctx),
                      Log (RetrievingSchema (name w)), GetToken s]\<rparr>)
     | Inr token \<Rightarrow>
    (case getTaskAgentApi env (serverUrl org) token of
       Inl e \<Rightarrow> (Inl e, st\<lparr>trace := trace st @ [CreateDirectory (globalStorageUri ctx),
                      Log (RetrievingSchema (name w)), GetToken s,
                      GetTaskAgentApi (serverUrl org)]\<rparr>)
     | Inr _ \<Rightarrow>
    (case getYamlSchema env (serverUrl org) token of
       Inl e \<Rightarrow> (Inl e, st\<lparr>trace := trace st @ [CreateDirectory (globalStorageUri ctx),
                      Log (RetrievingSchema (name w)), GetToken s,
                      GetTaskAgentApi (serverUrl org), GetYamlSchema (serverUrl org)]\<rparr>)
     | Inr schema \<Rightarrow>
    (case writeFile env (schemaUriOf env ctx org) schema of
       Inl e \<Rightarrow> (Inl e, st\<lparr>trace := trace st @ [CreateDirectory (globalStorageUri ctx),
                      Log (RetrievingSchema (name w)), GetToken s,
                      GetTaskAgentApi (serverUrl org), GetYamlSchema (serverUrl org),
                      WriteFile (schemaUriOf env ctx org) schema]\<rparr>)
     | Inr _ \<Rightarrow>
         (Inr (schemaUriOf env ctx org),
          st\<lparr>seenOrganizations := insert org (seenOrganizations st),
             trace := trace st @ [CreateDirectory (globalStorageUri ctx),
                      Log (RetrievingSchema (name w)), GetToken s,
                      GetTaskAgentApi (serverUrl org), GetYamlSchema (serverUrl org),
                      WriteFile (schemaUriOf env ctx org) schema]\<rparr>))))))"
  using assms by (simp add: fetchSchema_def io_defs split: sum.splits)

text \<open>The set changes in one way only: every call of the fetch went through.\<close>

lemma fetchSchema_changes_seen:
  assumes "fetchSchema env ctx w org s st = (r, st')"
    and "seenOrganizations st' \<noteq> seenOrganizations st"
  obtains token schema where "org \<notin> seenOrganizations st"
    "createDirectory env (globalStorageUri ctx) = Inr ()"
    "getToken env s = Inr token"
    "getTaskAgentApi env (serverUrl org) token = Inr ()"
    "getYamlSchema env (serverUrl org) token = Inr schema"
    "writeFile env (schemaUriOf env ctx org) schema = Inr ()"
    "r = Inr (schemaUriOf env ctx org)"
    "st' = st\<lparr>seenOrganizations := insert org (seenOrganizations st),
               trace := trace st @ [CreateDirectory (globalStorageUri ctx),
                      Log (RetrievingSchema (name w)), GetToken s,
                      GetTaskAgentApi (serverUrl org), GetYamlSchema (serverUrl org),
                      WriteFile (schemaUriOf env ctx org) schema]\<rparr>"
proof -
  have new: "org \<notin> seenOrganizations st"
    using assms by (cases rule: fetchSchema_run) auto
  from assms(1) have eq: "(r, st') = fetchSchema env ctx w org s st" by simp
  show ?thesis
  proof (cases "createDirectory env (globalStorageUri ctx)")
    case (Inl e)
    with eq assms(2) show ?thesis by (simp add: fetchSchema_fresh[OF new])
  next
    case dir: (Inr u)
    show ?thesis
    proof (cases "getToken env s")
      case (Inl e)
      with eq dir assms(2) show ?thesis by (simp add: fetchSchema_fresh[OF new])
    next
      case tok: (Inr token)
      show ?thesis
      proof (cases "getTaskAgentApi env (serverUrl org) token")
        case (Inl e)
        with eq dir tok assms(2) show ?thesis by (simp add: fetchSchema_fresh[OF new])
      next
        case api: (Inr u')
        show ?thesis
        proof (cases "getYamlSchema env (serverUrl org) token")
          case (Inl e)
          with eq dir tok api assms(2) show ?thesis by (simp add: fetchSchema_fresh[OF new])
        next
          case sch: (Inr schema)
          show ?thesis
          proof (cases "writeFile env (schemaUriOf env ctx org) schema")
            case (Inl e)
            with eq dir tok api sch assms(2) show ?thesis
              by (simp add: fetchSchema_fresh[OF new])
          next
            case (Inr u'')
            with eq dir tok api sch have "r = Inr (schemaUriOf env ctx org)"
              "st' = st\<lparr>seenOrganizations := insert org (seenOrganizations st),
               trace := trace st @ [CreateDirectory (globalStorageUri ctx),
                      Log (RetrievingSchema (name w)), GetToken s,
                      GetTaskAgentApi (serverUrl org), GetYamlSchema (serverUrl org),
                      WriteFile (schemaUriOf env ctx org) schema]\<rparr>"
              by (simp_all add: fetchSchema_fresh[OF new])
            with new dir tok api sch Inr show ?thesis by (intro that[of token schema]) simp_all
          qed
        qed
      qed
    qed
  qed
qed

subsection \<open>Detection as a whole\<close>

lemma autoDetectSchema_logged_in:
  assumes "getAzureAccountExtensionApi env = Inr ()" and "waitForSubscriptions env = Inr True"
  shows "autoDetectSchema env context w =
     andThen (identify env w) (\<lambda>resolved.
       case resolved of
         Prompted \<Rightarrow> ret None
       | Resolved organizationName None \<Rightarrow>
           andThen (emit (Log (NoOrganizationFound (name w)))) (\<lambda>_.
           andThen (emit (ShowErrorMessage (UnableToAccessOrganization organizationName))) (\<lambda>_.
           ret None))
       | Resolved organizationName (Some session) \<Rightarrow>
           andThen (fetchSchema env context w organizationName session)
             (\<lambda>schemaUri. ret (Some schemaUri)))"
  using assms by (simp add: autoDetectSchema_def andThen_outcome_Inr)

lemma autoDetectSchema_resolved:
  assumes "getAzureAccountExtensionApi env = Inr ()" and "waitForSubscriptions env = Inr True"
    and "identify env w st = (Inr (Resolved org (Some s)), st1)"
  shows "autoDetectSchema env ctx w st =
           andThen (fetchSchema env ctx w org s) (\<lambda>schemaUri. ret (Some schemaUri)) st1"
  using assms(3) by (simp add: autoDetectSchema_logged_in[OF assms(1,2)] andThen_Inr)

lemma autoDetectSchema_cases:
  assumes "autoDetectSchema env ctx w st = (r, st')"
  obtains
    (stopped) es where "\<And>u. r \<noteq> Inr (Some u)" "seenOrganizations st' = seenOrganizations st"
      "trace st' = trace st @ es" "list_all (\<lambda>e. \<not> isSchemaFetch e) es"
  | (resolved) org s st1 r1 where
      "getAzureAccountExtensionApi env = Inr ()" "waitForSubscriptions env = Inr True"
      "identify env w st = (Inr (Resolved org (Some s)), st1)"
      "fetchSchema env ctx w org s st1 = (r1, st')"
      "r = (case r1 of Inl e \<Rightarrow> Inl e | Inr u \<Rightarrow> Inr (Some u))"
proof (cases "getAzureAccountExtensionApi env")
  case (Inl e)
  then have "autoDetectSchema env ctx w st = (Inl e, st)"
    by (simp add: autoDetectSchema_def andThen_outcome_Inl raise_def)
  with assms have "r = Inl e" "st' = st" by simp_all
  then show ?thesis by (intro stopped[of "[]"]) simp_all
next
  case api: (Inr u)
  show ?thesis
  proof (cases "waitForSubscriptions env")
    case (Inl e)
    with api have "autoDetectSchema env ctx w st = (Inl e, st)"
      by (simp add: autoDetectSchema_def andThen_outcome_Inl andThen_outcome_Inr raise_def)
    with assms have "r = Inl e" "st' = st" by simp_all
    then show ?thesis by (intro stopped[of "[]"]) simp_all
  next
    case (Inr loggedIn)
    show ?thesis
    proof (cases loggedIn)
      case False
      with api Inr have "autoDetectSchema env ctx w st =
          (Inr None, st\<lparr>pending := pending st @ [SignInPrompt],
             trace := trace st @ [Log WaitingForLogin,
               ShowInformationMessage SignInForEnhancedIntelliSense (signInLabel env)]\<rparr>)"
        by (simp add: autoDetectSchema_def andThen_outcome_Inr) (simp add: io_defs)
      with assms have "r = Inr None" "st' = st\<lparr>pending := pending st @ [SignInPrompt],
             trace := trace st @ [Log WaitingForLogin,
               ShowInformationMessage SignInForEnhancedIntelliSense (signInLabel env)]\<rparr>"
        by simp_all
      then show ?thesis
        by (intro stopped[of "[Log WaitingForLogin,
               ShowInformationMessage SignInForEnhancedIntelliSense (signInLabel env)]"]) simp_all
    next
      case True
      with api Inr have login: "getAzureAccountExtensionApi env = Inr ()"
        "waitForSubscriptions env = Inr True" by simp_all
      obtain ri st1 where id: "identify env w st = (ri, st1)" by (cases "identify env w st")
      from identify_frame[OF id] obtain es where
        seen: "seenOrganizations st1 = seenOrganizations st"
        and tr: "trace st1 = trace st @ es"
        and es: "list_all (\<lambda>e. \<not> isSchemaFetch e) es"
        by (auto simp: list_all_iff)
      note unfolded = autoDetectSchema_logged_in[OF login] andThen_def id
      show ?thesis
      proof (cases ri)
        case (Inl e)
        then have "autoDetectSchema env ctx w st = (Inl e, st1)"
          by (simp add: unfolded)
        with assms have "r = Inl e" "st' = st1" by simp_all
        with seen tr es show ?thesis by (intro stopped[of es]) simp_all
      next
        case ok: (Inr resolved)
        show ?thesis
        proof (cases resolved)
          case Prompted
          with ok have "autoDetectSchema env ctx w st = (Inr None, st1)"
            by (simp add: unfolded ret_def)
          with assms have "r = Inr None" "st' = st1" by simp_all
          with seen tr es show ?thesis by (intro stopped[of es]) simp_all
        next
          case (Resolved org session)
          show ?thesis
          proof (cases session)
            case None
            let ?more = "[Log (NoOrganizationFound (name w)),
                          ShowErrorMessage (UnableToAccessOrganization org)]"
            from ok Resolved None have "autoDetectSchema env ctx w st =
                (Inr None, st1\<lparr>trace := trace st1 @ ?more\<rparr>)"
              by (simp add: unfolded ret_def emit_def)
            with assms have "r = Inr None" "st' = st1\<lparr>trace := trace st1 @ ?more\<rparr>"
              by simp_all
            with seen tr es show ?thesis by (intro stopped[of "es @ ?more"]) simp_all
          next
            case (Some s)
            obtain r1 st2 where f: "fetchSchema env ctx w org s st1 = (r1, st2)"
              by (cases "fetchSchema env ctx w org s st1")
            from ok Resolved Some id have id': "identify env w st = (Inr (Resolved org (Some s)), st1)"
              by simp
            from autoDetectSchema_resolved[OF login id', of ctx] f
            have "autoDetectSchema env ctx w st =
                    (case r1 of Inl e \<Rightarrow> Inl e | Inr u \<Rightarrow> Inr (Some u), st2)"
              by (simp add: andThen_def ret_def split: sum.splits)
            with assms f have "fetchSchema env ctx w org s st1 = (r1, st')"
              "r = (case r1 of Inl e \<Rightarrow> Inl e | Inr u \<Rightarrow> Inr (Some u))" by simp_all
            with login id' show ?thesis by (intro resolved)
          qed
        qed
      qed
    qed
  qed
qed

lemma keeps_autoDetectSchema:
  assumes "\<And>st t. f (st\<lparr>trace := t\<rparr>) = f st" and "\<And>st p. f (st\<lparr>pending := p\<rparr>) = f st"
    and "\<And>st S. f (st\<lparr>seenOrganizations := S\<rparr>) = f st"
  shows "keeps f (autoDetectSchema env ctx w)"
  unfolding autoDetectSchema_def
  by (intro keeps_rules keeps_case_resolution keeps_identify keeps_fetchSchema)
     (simp_all add: assms)

text \<open>A resolution reads the stored choices and never writes them.\<close>

lemma autoDetectSchema_keeps_choices:
  "azurePipelinesDetails (snd (autoDetectSchema env ctx w st)) = azurePipelinesDetails st"
proof -
  have "keeps azurePipelinesDetails (autoDetectSchema env ctx w)"
    by (rule keeps_autoDetectSchema) simp_all
  then show ?thesis by (simp add: keeps_def)
qed

text \<open>The set of seen organizations only grows, and the continuations leave it alone.\<close>

lemma autoDetectSchema_seen_grows:
  "seenOrganizations st \<subseteq> seenOrganizations (snd (autoDetectSchema env ctx w st))"
proof -
  obtain r st' where run: "autoDetectSchema env ctx w st = (r, st')"
    by (cases "autoDetectSchema env ctx w st")
  then have "seenOrganizations st \<subseteq> seenOrganizations st'"
  proof (cases rule: autoDetectSchema_cases)
    case (stopped es)
    then show ?thesis by simp
  next
    case (resolved org s st1 r1)
    from identify_frame(1)[OF resolved(3)] have seen: "seenOrganizations st1 = seenOrganizations st" .
    from resolved(4) show ?thesis
      by (cases rule: fetchSchema_run) (use seen in auto)
  qed
  with run show ?thesis by simp
qed

lemma serverUrl_inject [simp]: "serverUrl a = serverUrl b \<longleftrightarrow> a = b"
  by (simp add: serverUrl_def)

lemma fetched_is_seen:
  assumes "autoDetectSchema env ctx w st = (Inr (Some u), st')"
    and "GetYamlSchema (serverUrl org) \<in> set (emitted st st')"
  shows "org \<in> seenOrganizations st'"
  using assms(1)
proof (cases rule: autoDetectSchema_cases)
  case (stopped es)
  from stopped(1)[of u] show ?thesis by simp
next
  case (resolved org' s st1 r1)
  from identify_frame[OF resolved(3)] obtain es where
    tr: "trace st1 = trace st @ es" and es: "list_all (\<lambda>e. \<not> isSchemaFetch e) es"
    by (auto simp: list_all_iff)
  from es have no: "GetYamlSchema (serverUrl org) \<notin> set es"
    by (auto simp: list_all_iff)
  from resolved(4) show ?thesis
  proof (cases rule: fetchSchema_run)
    case (failed e es')
    with resolved(5) show ?thesis by simp
  next
    case cached
    with tr no assms(2) show ?thesis by (simp add: emitted_def)
  next
    case (fetched schema)
    with tr no assms(2) show ?thesis by (simp add: emitted_def)
  qed
qed

lemma detected_never_throws: "\<exists>d. fst (detected env ctx workspaceFolder st) = Inr d"
  by (auto simp: detected_def attempt_def andThen_def ret_def emit_def
      split: option.splits prod.splits sum.splits)

subsection \<open>The select-organization continuation\<close>

lemma emits_organizationAndSessions:
  "(\<And>s. P (ListOrganizations s)) \<Longrightarrow> emits P (organizationAndSessions env ss)"
proof (induction ss)
  case Nil
  show ?case by (simp add: emits_def)
next
  case (Cons s ss)
  have eq: "organizationAndSessions env (s # ss) =
     andThen (await (ListOrganizations s) (listOrganizations env s)) (\<lambda>organizations.
     andThen (organizationAndSessions env ss) (\<lambda>items.
     ret (map (\<lambda>accountName. (accountName, s)) organizations @ items)))"
    by (rule ext) (simp add: andThen_def ret_def split: prod.splits sum.splits)
  show ?case unfolding eq using Cons by (auto intro!: emits_intros)
qed

lemma keeps_organizationAndSessions:
  "(\<And>st t. f (st\<lparr>trace := t\<rparr>) = f st) \<Longrightarrow> keeps f (organizationAndSessions env ss)"
proof (induction ss)
  case Nil
  show ?case by (simp add: keeps_def)
next
  case (Cons s ss)
  have eq: "organizationAndSessions env (s # ss) =
     andThen (await (ListOrganizations s) (listOrganizations env s)) (\<lambda>organizations.
     andThen (organizationAndSessions env ss) (\<lambda>items.
     ret (map (\<lambda>accountName. (accountName, s)) organizations @ items)))"
    by (rule ext) (simp add: andThen_def ret_def split: prod.splits sum.splits)
  show ?case unfolding eq using Cons by (auto intro!: keeps_intros)
qed

lemma promise_run:
  "\<exists>items st1 es. organizationAndSessionsPromise env st = (Inr items, st1) \<and>
     trace st1 = trace st @ es \<and> list_all (\<lambda>e. \<exists>s. e = ListOrganizations s) es \<and>
     azurePipelinesDetails st1 = azurePipelinesDetails st \<and>
     seenOrganizations st1 = seenOrganizations st \<and> pending st1 = pending st"
proof -
  let ?m = "organizationAndSessionsPromise env"
  have e: "emits (\<lambda>e. \<exists>s. e = ListOrganizations s) ?m"
    unfolding organizationAndSessionsPromise_def
    by (auto intro!: emits_intros emits_organizationAndSessions)
  have k1: "keeps azurePipelinesDetails ?m" and k2: "keeps seenOrganizations ?m"
    and k3: "keeps pending ?m"
    unfolding organizationAndSessionsPromise_def
    by (auto intro!: keeps_intros keeps_organizationAndSessions)
  have r: "\<exists>items. fst (?m st) = Inr items"
    unfolding organizationAndSessionsPromise_def
    by (auto simp: attempt_def andThen_def ret_def split: prod.splits sum.splits)
  then obtain items where "fst (?m st) = Inr items" by blast
  then have "?m st = (Inr items, snd (?m st))" by (metis prod.collapse)
  moreover from e obtain es where "trace (snd (?m st)) = trace st @ es"
    "list_all (\<lambda>e. \<exists>s. e = ListOrganizations s) es" unfolding emits_def by blast
  ultimately show ?thesis using k1 k2 k3 unfolding keeps_def by blast
qed

lemma selectOrganizationAnswered_run:
  assumes "selectOrganizationAnswered env w captured action st = (r, st')"
  obtains (kept) es where "azurePipelinesDetails st' = azurePipelinesDetails st"
      "emitted st st' = es" "filter isFire es = []"
      "\<And>n d. UpdateWorkspaceState n d \<in> set es \<Longrightarrow> r \<noteq> Inr ()"
    | (stored) es :: "effect list" and label :: string and data :: session where "r = Inr ()"
      "azurePipelinesDetails st' =
         Some (merged captured (name w) \<lparr>organization = label, tenant = tenantId data\<rparr>)"
      "emitted st st' = es @ [ShowQuickPick,
         UpdateWorkspaceState (name w) \<lparr>organization = label, tenant = tenantId data\<rparr>, Fire w]"
      "list_all (\<lambda>e. \<exists>s. e = ListOrganizations s) es"
proof (cases "action = Some (selectOrganizationLabel env)")
  case False
  with assms have "st' = st" by (simp add: selectOrganizationAnswered_def ret_def)
  then show ?thesis by (intro kept[of "[]"]) (simp_all add: emitted_def)
next
  case True
  from promise_run[of env st] obtain items st1 es where
    p: "organizationAndSessionsPromise env st = (Inr items, st1)"
    and t: "trace st1 = trace st @ es" "list_all (\<lambda>e. \<exists>s. e = ListOrganizations s) es"
    and d: "azurePipelinesDetails st1 = azurePipelinesDetails st"
    by blast
  from t(2) have nofire: "filter isFire es = []"
    by (auto simp: filter_empty_conv list_all_iff)
  from t(2) have noupd: "\<And>n d. UpdateWorkspaceState n d \<notin> set es"
    by (auto simp: list_all_iff)
  let ?st2 = "st1\<lparr>trace := trace st1 @ [ShowQuickPick]\<rparr>"
  note defs = selectOrganizationAnswered_def andThen_def await_def ret_def modify_def emit_def
  show ?thesis
  proof (cases "showQuickPick env items")
    case (Inl e)
    with True p have "selectOrganizationAnswered env w captured action st = (Inl e, ?st2)"
      by (simp add: defs)
    with assms have "r = Inl e" "st' = ?st2" by simp_all
    with t d nofire noupd show ?thesis
      by (intro kept[of "es @ [ShowQuickPick]"]) (simp_all add: emitted_def)
  next
    case (Inr sel)
    show ?thesis
    proof (cases sel)
      case None
      with Inr True p have "selectOrganizationAnswered env w captured action st = (Inr (), ?st2)"
        by (simp add: defs)
      with assms have "st' = ?st2" by simp
      with t d nofire noupd show ?thesis
        by (intro kept[of "es @ [ShowQuickPick]"]) (simp_all add: emitted_def)
    next
      case (Some item)
      obtain label data where item: "item = (label, data)" by (cases item)
      let ?d = "\<lparr>organization = label, tenant = tenantId data\<rparr>"
      show ?thesis
      proof (cases "workspaceState_update env (merged captured (name w) ?d)")
        case (Inl e)
        with \<open>showQuickPick env items = Inr sel\<close> Some item True p
        have "selectOrganizationAnswered env w captured action st =
            (Inl e, ?st2\<lparr>trace := trace ?st2 @ [UpdateWorkspaceState (name w) ?d]\<rparr>)"
          by (simp add: defs)
        with assms have "r = Inl e"
          "st' = ?st2\<lparr>trace := trace ?st2 @ [UpdateWorkspaceState (name w) ?d]\<rparr>"
          by simp_all
        with t d nofire noupd show ?thesis
          by (intro kept[of "es @ [ShowQuickPick, UpdateWorkspaceState (name w) ?d]"])
             (simp_all add: emitted_def)
      next
        case (Inr u)
        with \<open>showQuickPick env items = Inr sel\<close> Some item True p
        have "selectOrganizationAnswered env w captured action st =
            (Inr (), ?st2\<lparr>azurePipelinesDetails := Some (merged captured (name w) ?d),
               trace := trace ?st2 @ [UpdateWorkspaceState (name w) ?d, Fire w]\<rparr>)"
          by (simp add: defs)
        with assms have "r = Inr ()"
          "st' = ?st2\<lparr>azurePipelinesDetails := Some (merged captured (name w) ?d),
             trace := trace ?st2 @ [UpdateWorkspaceState (name w) ?d, Fire w]\<rparr>"
          by simp_all
        with t show ?thesis
          by (intro stored[of label data es]) (simp_all add: emitted_def)
      qed
    qed
  qed
qed

lemma selection_merges_captured:
  assumes "selectOrganizationAnswered env w captured action st = (Inr (), st')"
    and "Fire w \<in> set (emitted st st')"
    and "n \<noteq> name w"
  shows "storedChoice st' n = (case captured of None \<Rightarrow> None | Some m \<Rightarrow> m n)"
  using assms(1)
proof (cases rule: selectOrganizationAnswered_run)
  case (kept es)
  with assms(2) show ?thesis by (auto simp: filter_empty_conv)
next
  case (stored es label data)
  with assms(3) show ?thesis by (simp add: storedChoice_def merged_def split: option.splits)
qed

lemma keeps_selectOrganizationAnswered:
  assumes "\<And>st t. f (st\<lparr>trace := t\<rparr>) = f st" and "\<And>st d. f (st\<lparr>azurePipelinesDetails := d\<rparr>) = f st"
  shows "keeps f (selectOrganizationAnswered env w captured action)"
  unfolding selectOrganizationAnswered_def organizationAndSessionsPromise_def
  by (intro keeps_rules keeps_case_prod keeps_organizationAndSessions) (simp_all add: assms)

lemma answer_keeps_seen:
  "seenOrganizations (snd (answer env task action st)) = seenOrganizations st"
proof (cases task)
  case SignInPrompt
  then show ?thesis by (simp add: signInAnswered_def emit_def ret_def)
next
  case (SelectOrganizationPrompt w captured)
  have "keeps seenOrganizations (selectOrganizationAnswered env w captured action)"
    by (rule keeps_selectOrganizationAnswered) simp_all
  with SelectOrganizationPrompt show ?thesis by (simp add: keeps_def)
qed

subsection \<open>The sample collaborators at work\<close>

lemma sample_platform:
  "toLowerCase sampleEnv = map lowerChar"
  "trim sampleEnv = sampleTrim"
  "path_join sampleEnv a b = a @ ''/'' @ b"
  "path_isAbsolute sampleEnv p = (take 1 p = ''/'')"
  "Uri_parse sampleEnv = sampleParse"
  "Uri_file sampleEnv p =
     \<lparr>scheme = ''file'', authority = [], path = p, query = [], fragment = []\<rparr>"
  by (simp_all add: sampleEnv_def)

lemma sample_static:
  "staticSchemaUri sampleEnv sampleContext None =
     Inr \<lparr>scheme = ''file'', authority = [], path = ''/ext/service-schema.json'',
          query = [], fragment = []\<rparr>"
  by (simp add: staticSchemaUri_def alternateSchemaOf_def hasHttpScheme_def sampleEnv_def
      sampleContext_def sampleTrim_def lowerChar_def)

lemma sample_static_folder: "staticSchemaUri sampleEnv sampleContext (Some w) =
     Inr \<lparr>scheme = ''file'', authority = [], path = ''/ext/service-schema.json'',
          query = [], fragment = []\<rparr>"
  by (simp add: staticSchemaUri_def alternateSchemaOf_def hasHttpScheme_def sampleEnv_def
      sampleContext_def sampleTrim_def lowerChar_def)

lemma sample_unrecognized: "\<not> recognizedRemote sampleEnv w"
  by (simp add: recognizedRemote_def getRemoteUrl_def io_defs sampleEnv_def)

lemma sample_promise:
  "organizationAndSessionsPromise sampleEnv st =
     (Inr (Some [(''Contoso'', alice)]), st\<lparr>trace := trace st @ [ListOrganizations alice]\<rparr>)"
  by (simp add: organizationAndSessionsPromise_def io_defs sampleEnv_def)

lemma sample_choice:
  "selectOrganizationAnswered sampleEnv w captured (Some ''Select organization'') st =
     (Inr (), st\<lparr>azurePipelinesDetails :=
                   Some (merged captured (name w)
                           \<lparr>organization = ''Contoso'', tenant = ''tenant-1''\<rparr>),
                 trace := trace st @ [ListOrganizations alice, ShowQuickPick,
                   UpdateWorkspaceState (name w)
                     \<lparr>organization = ''Contoso'', tenant = ''tenant-1''\<rparr>,
                   Fire w]\<rparr>)"
proof -
  have l: "selectOrganizationLabel sampleEnv = ''Select organization''"
    and q: "showQuickPick sampleEnv (Some [(''Contoso'', alice)]) = Inr (Some (''Contoso'', alice))"
    and u: "\<And>m. workspaceState_update sampleEnv m = Inr ()"
    by (simp_all add: sampleEnv_def)
  have t: "tenantId alice = ''tenant-1''" by (simp add: alice_def)
  show ?thesis
    by (simp add: selectOrganizationAnswered_def andThen_def sample_promise l q u await_def
        modify_def emit_def t)
qed

lemma sample_prompt:
  assumes "storedChoice st (name w) = None"
  shows "locateSchemaFile sampleEnv sampleContext (Some w) st =
     (Inr ''/ext/service-schema.json'',
      st\<lparr>pending := pending st @ [SelectOrganizationPrompt w (azurePipelinesDetails st)],
         trace := trace st @ [Log (DetectingSchema (name w)), Log (NotAzureRepo (name w)),
           Log (PromptingForOrganization (name w)),
           ShowInformationMessage (SelectOrganizationForEnhancedIntelliSense (name w))
             ''Select organization'',
           Log (UsingHardcodedSchema (name w) ''/ext/service-schema.json'')]\<rparr>)"
proof -
  have g: "\<And>st. getRemoteUrl sampleEnv w st = (Inr None, st)"
    by (simp add: getRemoteUrl_def io_defs sampleEnv_def)
  have a: "getAzureAccountExtensionApi sampleEnv = Inr ()" "waitForSubscriptions sampleEnv = Inr True"
    "selectOrganizationLabel sampleEnv = ''Select organization''"
    by (simp_all add: sampleEnv_def)
  let ?st0 = "st\<lparr>trace := trace st @ [Log (DetectingSchema (name w))]\<rparr>"
  have "identify sampleEnv w ?st0 = fromWorkspaceState sampleEnv w ?st0"
    by (simp add: identify_def andThen_def g resolveOrganization_def)
  also have "\<dots> = (Inr Prompted,
      ?st0\<lparr>pending := pending ?st0 @ [SelectOrganizationPrompt w (azurePipelinesDetails ?st0)],
        trace := trace ?st0 @ [Log (NotAzureRepo (name w)),
          Log (PromptingForOrganization (name w)),
          ShowInformationMessage (SelectOrganizationForEnhancedIntelliSense (name w))
            (selectOrganizationLabel sampleEnv)]\<rparr>)"
    by (rule fromWorkspaceState_prompt) (use assms in simp)
  finally have "autoDetectSchema sampleEnv sampleContext w ?st0 = (Inr None,
      ?st0\<lparr>pending := pending ?st0 @ [SelectOrganizationPrompt w (azurePipelinesDetails ?st0)],
        trace := trace ?st0 @ [Log (NotAzureRepo (name w)),
          Log (PromptingForOrganization (name w)),
          ShowInformationMessage (SelectOrganizationForEnhancedIntelliSense (name w))
            (selectOrganizationLabel sampleEnv)]\<rparr>)"
    by (simp add: autoDetectSchema_logged_in[OF a(1,2)] andThen_def ret_def)
  then show ?thesis
    by (simp add: locateSchemaFile_def detected_def io_defs sample_static_folder a(3))
qed

lemma azure_remote:
  "getRemoteUrl (azureEnv\<lparr>writeFile := write\<rparr>) w st =
     (Inr (Some ''https://dev.azure.com/contoso/project/_git/repo''),
      st\<lparr>trace := trace st @ [Log (FoundRemoteUrl (name w)
             (Some ''https://dev.azure.com/contoso/project/_git/repo''))]\<rparr>)"
  by (simp add: getRemoteUrl_def io_defs azureEnv_def sampleEnv_def azureRepo_def remoteUrlOf_def)

lemma azure_identify:
  "identify (azureEnv\<lparr>writeFile := write\<rparr>) w st =
     (Inr (Resolved ''contoso'' (Some alice)),
      st\<lparr>trace := trace st @ [Log (FoundRemoteUrl (name w)
             (Some ''https://dev.azure.com/contoso/project/_git/repo'')),
           Log (IsAzureRepo (name w)), ListOrganizations alice]\<rparr>)"
proof -
  have a: "isAzureReposUrl azureEnv ''https://dev.azure.com/contoso/project/_git/repo''"
    and b: "getRepositoryDetailsFromRemoteUrl azureEnv
             ''https://dev.azure.com/contoso/project/_git/repo'' = Inr ''contoso''"
    and c: "sessions azureEnv = [alice]"
    and d: "listOrganizations azureEnv alice = Inr [''Contoso'']"
    and e: "toLowerCase azureEnv = map lowerChar"
    by (simp_all add: azureEnv_def sampleEnv_def)
  have f: "hasOrganization (azureEnv\<lparr>writeFile := write\<rparr>) ''contoso'' [''Contoso'']"
    by (simp add: hasOrganization_def e lowerChar_def)
  show ?thesis
    by (simp add: identify_def andThen_def azure_remote resolveOrganization_def a
        fromRemoteUrl_def b c d f emit_def outcome_def await_def ret_def)
qed

lemma azure_login:
  "getAzureAccountExtensionApi azureEnv = Inr ()"
  "waitForSubscriptions azureEnv = Inr True"
  by (simp_all add: azureEnv_def sampleEnv_def)

lemma azure_fetch_parts:
  "createDirectory azureEnv u = Inr ()"
  "getToken azureEnv s = Inr ''token''"
  "getTaskAgentApi azureEnv url t = Inr ()"
  "getYamlSchema azureEnv url t = Inr ''{}''"
  "writeFile azureEnv u c = Inr ()"
  by (simp_all add: azureEnv_def sampleEnv_def)

lemma azure_resolved:
  "autoDetectSchema (azureEnv\<lparr>writeFile := write\<rparr>) ctx w st =
     andThen (fetchSchema (azureEnv\<lparr>writeFile := write\<rparr>) ctx w ''contoso'' alice)
       (\<lambda>schemaUri. ret (Some schemaUri))
       (st\<lparr>trace := trace st @ [Log (FoundRemoteUrl (name w)
             (Some ''https://dev.azure.com/contoso/project/_git/repo'')),
           Log (IsAzureRepo (name w)), ListOrganizations alice]\<rparr>)"
  by (rule autoDetectSchema_resolved[OF _ _ azure_identify]) (simp_all add: azure_login)

lemma azureEnv_writeFile: "azureEnv\<lparr>writeFile := (\<lambda>u content. Inr ())\<rparr> = azureEnv"
  by (simp add: azureEnv_def sampleEnv_def)

lemma azure_identify_plain:
  "identify azureEnv w st =
     (Inr (Resolved ''contoso'' (Some alice)),
      st\<lparr>trace := trace st @ [Log (FoundRemoteUrl (name w)
             (Some ''https://dev.azure.com/contoso/project/_git/repo'')),
           Log (IsAzureRepo (name w)), ListOrganizations alice]\<rparr>)"
  using azure_identify[of "\<lambda>u content. Inr ()" w st] by (simp only: azureEnv_writeFile)

lemma once_run:
  "autoDetectSchema azureEnv sampleContext repoA initial =
     (Inr (Some (schemaUriOf azureEnv sampleContext ''contoso'')), onceResolved)"
  "seenOrganizations onceResolved = {''contoso''}"
  "emitted initial onceResolved =
     [Log (FoundRemoteUrl ''repo-a'' (Some ''https://dev.azure.com/contoso/project/_git/repo'')),
      Log (IsAzureRepo ''repo-a''), ListOrganizations alice,
      CreateDirectory (globalStorageUri sampleContext), Log (RetrievingSchema ''repo-a''),
      GetToken alice, GetTaskAgentApi (serverUrl ''contoso''), GetYamlSchema (serverUrl ''contoso''),
      WriteFile (schemaUriOf azureEnv sampleContext ''contoso'') ''{}'']"
proof -
  have "autoDetectSchema (azureEnv\<lparr>writeFile := (\<lambda>u content. Inr ())\<rparr>) sampleContext repoA initial =
     (Inr (Some (schemaUriOf azureEnv sampleContext ''contoso'')),
      initial\<lparr>seenOrganizations := {''contoso''}, trace :=
     [Log (FoundRemoteUrl ''repo-a'' (Some ''https://dev.azure.com/contoso/project/_git/repo'')),
      Log (IsAzureRepo ''repo-a''), ListOrganizations alice,
      CreateDirectory (globalStorageUri sampleContext), Log (RetrievingSchema ''repo-a''),
      GetToken alice, GetTaskAgentApi (serverUrl ''contoso''), GetYamlSchema (serverUrl ''contoso''),
      WriteFile (schemaUriOf azureEnv sampleContext ''contoso'') ''{}'']\<rparr>)"
    by (simp add: azure_resolved fetchSchema_def azure_fetch_parts io_defs initial_def
        schemaUriOf_def) (simp add: repoA_def)
  then have run: "autoDetectSchema azureEnv sampleContext repoA initial =
     (Inr (Some (schemaUriOf azureEnv sampleContext ''contoso'')),
      initial\<lparr>seenOrganizations := {''contoso''}, trace :=
     [Log (FoundRemoteUrl ''repo-a'' (Some ''https://dev.azure.com/contoso/project/_git/repo'')),
      Log (IsAzureRepo ''repo-a''), ListOrganizations alice,
      CreateDirectory (globalStorageUri sampleContext), Log (RetrievingSchema ''repo-a''),
      GetToken alice, GetTaskAgentApi (serverUrl ''contoso''), GetYamlSchema (serverUrl ''contoso''),
      WriteFile (schemaUriOf azureEnv sampleContext ''contoso'') ''{}'']\<rparr>)"
    by (simp only: azureEnv_writeFile)
  then show "autoDetectSchema azureEnv sampleContext repoA initial =
     (Inr (Some (schemaUriOf azureEnv sampleContext ''contoso'')), onceResolved)"
    by (simp add: onceResolved_def)
  from run show "seenOrganizations onceResolved = {''contoso''}"
    by (simp add: onceResolved_def)
  from run show "emitted initial onceResolved =
     [Log (FoundRemoteUrl ''repo-a'' (Some ''https://dev.azure.com/contoso/project/_git/repo'')),
      Log (IsAzureRepo ''repo-a''), ListOrganizations alice,
      CreateDirectory (globalStorageUri sampleContext), Log (RetrievingSchema ''repo-a''),
      GetToken alice, GetTaskAgentApi (serverUrl ''contoso''), GetYamlSchema (serverUrl ''contoso''),
      WriteFile (schemaUriOf azureEnv sampleContext ''contoso'') ''{}'']"
    by (simp add: onceResolved_def emitted_def initial_def)
qed

lemma second_run:
  "autoDetectSchema azureEnv sampleContext repoA onceResolved =
     (Inr (Some (schemaUriOf azureEnv sampleContext ''contoso'')),
      onceResolved\<lparr>trace := trace onceResolved @
        [Log (FoundRemoteUrl ''repo-a'' (Some ''https://dev.azure.com/contoso/project/_git/repo'')),
         Log (IsAzureRepo ''repo-a''), ListOrganizations alice,
         CreateDirectory (globalStorageUri sampleContext),
         Log (ReturningCachedSchema ''repo-a'')]\<rparr>)"
proof -
  have "autoDetectSchema azureEnv sampleContext repoA onceResolved =
      andThen (fetchSchema azureEnv sampleContext repoA ''contoso'' alice)
        (\<lambda>schemaUri. ret (Some schemaUri))
        (onceResolved\<lparr>trace := trace onceResolved @ [Log (FoundRemoteUrl (name repoA)
             (Some ''https://dev.azure.com/contoso/project/_git/repo'')),
           Log (IsAzureRepo (name repoA)), ListOrganizations alice]\<rparr>)"
    by (rule autoDetectSchema_resolved[OF azure_login azure_identify_plain])
  then show ?thesis
    by (simp add: fetchSchema_def io_defs azure_fetch_parts once_run(2)) (simp add: repoA_def)
qed

lemma url_detected: "fst (detected urlSetting sampleContext (Some repoA) initial) = Inr None"
  by (simp add: detected_def autoDetectSchema_def identify_def getRemoteUrl_def
      resolveOrganization_def fromWorkspaceState_def storedChoice_def io_defs urlSetting_def
      sampleEnv_def initial_def)

section \<open>The claims\<close>

subsection \<open>C1: the entry point without a workspace folder\<close>

text \<open>
  Claim C1. Called with \<^verbatim>\<open>workspaceFolder\<close> undefined, the entry point skips detection and
  computes the static schema URI, but it does not return it: the log message of line 70
  reads \<^verbatim>\<open>workspaceFolder.name\<close>, so the call ends in a \<open>TypeError\<close> (or in the error of the
  strict URI parser, when that throws first). This holds for every configuration value,
  every extension context and every state, and the state is left as it was.
\<close>

theorem locateSchemaFile_without_folder:
  "locateSchemaFile env context None st =
     (Inl (case staticSchemaUri env context None of Inl e \<Rightarrow> e | Inr u \<Rightarrow> TypeError), st)"
  by (simp add: locateSchemaFile_def detected_def io_defs split: sum.splits)

theorem locateSchemaFile_without_folder_witness:
  "locateSchemaFile sampleEnv sampleContext None initial = (Inl TypeError, initial)"
  using locateSchemaFile_without_folder[of sampleEnv sampleContext initial]
  by (simp add: sample_static)

subsection \<open>C2: the second resolution of an organization\<close>

text \<open>
  Claim C2 fails as it stands: after \<^verbatim>\<open>repo-a\<close>, with its Azure Repos remote, has been
  resolved and the schema of \<^verbatim>\<open>contoso\<close> fetched, the next resolution of the same folder
  returns the same file and still asks the session for its organizations.
\<close>

theorem second_resolution_lists_organizations:
  "fst (autoDetectSchema azureEnv sampleContext repoA initial) =
     Inr (Some (schemaUriOf azureEnv sampleContext ''contoso'')) \<and>
   GetYamlSchema (serverUrl ''contoso'') \<in> set (emitted initial onceResolved) \<and>
   fst (autoDetectSchema azureEnv sampleContext repoA onceResolved) =
     Inr (Some (schemaUriOf azureEnv sampleContext ''contoso'')) \<and>
   filter isNetworkCall
     (emitted onceResolved (snd (autoDetectSchema azureEnv sampleContext repoA onceResolved))) =
     [ListOrganizations alice]"
  by (simp add: once_run second_run)

text \<open>
  Claim C2, as amended. A resolution returned a schema and its trace holds the schema
  request for an organization. In every later state of the process (the set of seen
  organizations only grows: lemmas \<open>autoDetectSchema_seen_grows\<close> and
  \<open>answer_keeps_seen\<close>), a resolution by a signed-in user that resolves to the same
  organization and a session ends with the file of that organization (or with the error of
  \<^verbatim>\<open>createDirectory\<close>), retrieves no token, sends no request to the task agent service
  and writes no file. The only calls that leave the machine are the organization list
  queries of the session matcher, which the identity phase makes before the cache is
  looked at; when the remote is not an Azure Repos URL there is none.
\<close>

theorem seen_organization_is_not_fetched_again:
  assumes "autoDetectSchema env1 ctx1 folder1 st0 = (Inr (Some u1), st1)"
    and "GetYamlSchema (serverUrl org) \<in> set (emitted st0 st1)"
    and "seenOrganizations st1 \<subseteq> seenOrganizations st2"
    and "getAzureAccountExtensionApi env2 = Inr ()" and "waitForSubscriptions env2 = Inr True"
    and "identify env2 folder2 st2 = (Inr (Resolved org (Some s2)), st2')"
  shows "\<exists>r st3. autoDetectSchema env2 ctx2 folder2 st2 = (r, st3) \<and>
           (r = Inr (Some (schemaUriOf env2 ctx2 org)) \<or>
            (\<exists>e. r = Inl e \<and> createDirectory env2 (globalStorageUri ctx2) = Inl e)) \<and>
           filter isSchemaFetch (emitted st2 st3) = [] \<and>
           filter isNetworkCall (emitted st2 st3) = filter isNetworkCall (emitted st2 st2') \<and>
           list_all (\<lambda>e. isNetworkCall e \<longrightarrow> (\<exists>s. e = ListOrganizations s)) (emitted st2 st3) \<and>
           (\<not> recognizedRemote env2 folder2 \<longrightarrow> filter isNetworkCall (emitted st2 st3) = [])"
proof -
  from fetched_is_seen[OF assms(1,2)] assms(3) have seen2: "org \<in> seenOrganizations st2"
    by blast
  from identify_frame[OF assms(6)] obtain es where
    seen: "seenOrganizations st2' = seenOrganizations st2"
    and tr: "trace st2' = trace st2 @ es"
    and es: "list_all (\<lambda>e. \<not> isSchemaFetch e \<and> \<not> isErrorMessage e \<and> \<not> isFire e \<and>
                        (isNetworkCall e \<longrightarrow> (\<exists>s. e = ListOrganizations s))) es"
    by blast
  from tr have em: "emitted st2 st2' = es" by (simp add: emitted_def)
  from es have es1: "filter isSchemaFetch es = []"
    and es2: "list_all (\<lambda>e. isNetworkCall e \<longrightarrow> (\<exists>s. e = ListOrganizations s)) es"
    by (auto simp: filter_empty_conv list_all_iff)
  have quiet: "filter isNetworkCall es = []" if "\<not> recognizedRemote env2 folder2"
  proof -
    from identify_unrecognized[OF that, of st2] obtain ls where
      id: "identify env2 folder2 st2 =
             fromWorkspaceState env2 folder2 (st2\<lparr>trace := trace st2 @ map Log ls\<rparr>)"
      by blast
    have "emits (\<lambda>e. \<not> isNetworkCall e) (fromWorkspaceState env2 folder2)"
      by (rule emits_fromWorkspaceState) simp_all
    from emitsD[OF this] id assms(6) obtain fs where
      "trace st2' = trace (st2\<lparr>trace := trace st2 @ map Log ls\<rparr>) @ fs"
      "list_all (\<lambda>e. \<not> isNetworkCall e) fs"
      by metis
    with tr have "es = map Log ls @ fs" by simp
    with \<open>list_all (\<lambda>e. \<not> isNetworkCall e) fs\<close> show ?thesis
      by (auto simp: filter_empty_conv list_all_iff)
  qed
  obtain r1 st3 where f: "fetchSchema env2 ctx2 folder2 org s2 st2' = (r1, st3)"
    by (cases "fetchSchema env2 ctx2 folder2 org s2 st2'")
  let ?r = "case r1 of Inl e \<Rightarrow> Inl e | Inr u \<Rightarrow> Inr (Some u)"
  from autoDetectSchema_resolved[OF assms(4,5,6), of ctx2] f
  have run: "autoDetectSchema env2 ctx2 folder2 st2 = (?r, st3)"
    by (simp add: andThen_def ret_def split: sum.splits)
  from f have "(?r = Inr (Some (schemaUriOf env2 ctx2 org)) \<or>
            (\<exists>e. ?r = Inl e \<and> createDirectory env2 (globalStorageUri ctx2) = Inl e)) \<and>
           filter isSchemaFetch (emitted st2 st3) = [] \<and>
           filter isNetworkCall (emitted st2 st3) = filter isNetworkCall es \<and>
           list_all (\<lambda>e. isNetworkCall e \<longrightarrow> (\<exists>s. e = ListOrganizations s)) (emitted st2 st3)"
  proof (cases rule: fetchSchema_run)
    case (failed e es')
    from failed(4) seen seen2 have "es' = [CreateDirectory (globalStorageUri ctx2)]"
      "createDirectory env2 (globalStorageUri ctx2) = Inl e" by simp_all
    with failed(1,2) tr es1 es2 show ?thesis by (simp add: emitted_def)
  next
    case cached
    with tr es1 es2 show ?thesis by (simp add: emitted_def)
  next
    case (fetched schema)
    with seen seen2 show ?thesis by simp
  qed
  with run em quiet show ?thesis by auto
qed

theorem seen_organization_is_not_fetched_again_witness:
  "GetYamlSchema (serverUrl ''contoso'') \<in> set (emitted initial onceResolved) \<and>
   (\<exists>st3. autoDetectSchema azureEnv sampleContext repoA onceResolved =
            (Inr (Some (schemaUriOf azureEnv sampleContext ''contoso'')), st3) \<and>
          filter isSchemaFetch (emitted onceResolved st3) = [] \<and>
          list_all (\<lambda>e. isNetworkCall e \<longrightarrow> (\<exists>s. e = ListOrganizations s))
            (emitted onceResolved st3))"
proof -
  have h2: "GetYamlSchema (serverUrl ''contoso'') \<in> set (emitted initial onceResolved)"
    by (simp add: once_run)
  have dir: "\<And>e. createDirectory azureEnv (globalStorageUri sampleContext) \<noteq> Inl e"
    by (simp add: azure_fetch_parts)
  from seen_organization_is_not_fetched_again[OF once_run(1) h2 subset_refl azure_login
      azure_identify_plain, of sampleContext repoA]
  show ?thesis using h2 dir by auto
qed

subsection \<open>C3: a stored choice without a session\<close>

text \<open>
  Claim C3. The folder has a stored choice \<open>d\<close> (organization and tenant), its remote is not an
  Azure Repos URL, the user is signed in, and no session has the stored tenant. Then the
  entry point returns the static schema path and shows no prompt, as the claim says; but it
  shows no error message either. The log message of line 173 reads \<^verbatim>\<open>session.tenantId\<close>
  where \<^verbatim>\<open>session\<close> is undefined, the \<open>TypeError\<close> is caught at line 44, and line 239, which
  would show the message, is never reached.
\<close>

theorem stored_choice_without_session:
  assumes "getAzureAccountExtensionApi env = Inr ()" and "waitForSubscriptions env = Inr True"
    and "\<not> recognizedRemote env folder"
    and "storedChoice st (name folder) = Some d"
    and "find (\<lambda>s. tenantId s = tenant d) (sessions env) = None"
  shows "\<exists>st'. locateSchemaFile env context (Some folder) st =
             (case staticSchemaUri env context (Some folder) of
                Inl e \<Rightarrow> Inl e | Inr u \<Rightarrow> Inr (path u), st') \<and>
           filter isErrorMessage (emitted st st') = [] \<and>
           filter isPrompt (emitted st st') = [] \<and>
           Log (ErrorAutoDetecting (name folder) TypeError) \<in> set (emitted st st') \<and>
           pending st' = pending st"
proof -
  let ?st0 = "st\<lparr>trace := trace st @ [Log (DetectingSchema (name folder))]\<rparr>"
  from identify_unrecognized[OF assms(3), of ?st0] obtain ls where
    id: "identify env folder ?st0 =
           fromWorkspaceState env folder (?st0\<lparr>trace := trace ?st0 @ map Log ls\<rparr>)"
    by blast
  let ?st1 = "?st0\<lparr>trace := trace ?st0 @ map Log ls\<rparr>"
  have "fromWorkspaceState env folder ?st1 =
          (Inl TypeError, ?st1\<lparr>trace := trace ?st1 @ [Log (NotAzureRepo (name folder))]\<rparr>)"
    by (rule fromWorkspaceState_no_session[where d = d]) (use assms in simp_all)
  with id have auto: "autoDetectSchema env context folder ?st0 =
      (Inl TypeError, st\<lparr>trace := trace st @ map Log
         (DetectingSchema (name folder) # ls @ [NotAzureRepo (name folder)])\<rparr>)"
    by (simp add: autoDetectSchema_logged_in[OF assms(1,2)] andThen_def)
  let ?ls2 = "DetectingSchema (name folder) # ls @
               [NotAzureRepo (name folder), ErrorAutoDetecting (name folder) TypeError]"
  from auto have det: "detected env context (Some folder) st =
      (Inr None, st\<lparr>trace := trace st @ map Log ?ls2\<rparr>)"
    by (simp add: detected_def io_defs)
  show ?thesis
  proof (cases "staticSchemaUri env context (Some folder)")
    case (Inl e)
    with det have "locateSchemaFile env context (Some folder) st =
        (Inl e, st\<lparr>trace := trace st @ map Log ?ls2\<rparr>)"
      by (simp add: locateSchemaFile_def io_defs)
    with Inl show ?thesis
      by (intro exI[of _ "st\<lparr>trace := trace st @ map Log ?ls2\<rparr>"]) (simp add: filter_empty_conv)
  next
    case (Inr u)
    let ?ls3 = "?ls2 @ [UsingHardcodedSchema (name folder) (path u)]"
    from det Inr have "locateSchemaFile env context (Some folder) st =
        (Inr (path u), st\<lparr>trace := trace st @ map Log ?ls3\<rparr>)"
      by (simp add: locateSchemaFile_def io_defs)
    with Inr show ?thesis
      by (intro exI[of _ "st\<lparr>trace := trace st @ map Log ?ls3\<rparr>"]) (simp add: filter_empty_conv)
  qed
qed

theorem stored_choice_without_session_witness:
  "\<not> recognizedRemote sampleEnv repoA \<and>
   find (\<lambda>s. tenantId s = ''tenant-2'') (sessions sampleEnv) = None \<and>
   (\<exists>st'. locateSchemaFile sampleEnv sampleContext (Some repoA) revoked =
            (Inr ''/ext/service-schema.json'', st') \<and>
          filter isErrorMessage (emitted revoked st') = [] \<and>
          Log (ErrorAutoDetecting ''repo-a'' TypeError) \<in> set (emitted revoked st'))"
proof -
  have h1: "getAzureAccountExtensionApi sampleEnv = Inr ()"
    and h2: "waitForSubscriptions sampleEnv = Inr True"
    and h4: "storedChoice revoked (name repoA) =
               Some \<lparr>organization = ''contoso'', tenant = ''tenant-2''\<rparr>"
    and h6: "find (\<lambda>s. tenantId s = tenant \<lparr>organization = ''contoso'', tenant = ''tenant-2''\<rparr>)
               (sessions sampleEnv) = None"
    by (simp_all add: sampleEnv_def revoked_def initial_def repoA_def alice_def storedChoice_def)
  from stored_choice_without_session[OF h1 h2 sample_unrecognized h4 h6, of sampleContext]
  show ?thesis
    using h6 by (auto simp: sample_unrecognized sample_static_folder repoA_def)
qed

subsection \<open>C4: the static location\<close>

text \<open>
  Claim C4 fails in its last case: without a workspace folder a relative setting is not
  joined to the installation root. Line 66 takes the bundled file instead.
\<close>

theorem relative_setting_without_folder:
  "staticSchemaUri relativeSetting sampleContext None \<noteq>
     claimedSchemaUri relativeSetting sampleContext None"
  by (simp add: staticSchemaUri_def claimedSchemaUri_def alternateSchemaOf_def hasHttpScheme_def
      relativeSetting_def sample_platform sampleTrim_def lowerChar_def sampleContext_def)

text \<open>
  Claim C4, as amended. Lines 53 to 67 compute: the bundled file for a setting that is empty
  after trimming; the parsed URL for a setting that starts with \<^verbatim>\<open>http://\<close> or \<^verbatim>\<open>https://\<close>
  in lower case; the file itself for an absolute setting; the setting joined to the root of
  the workspace folder when there is one; and the bundled file, not the setting, when there
  is none. The installation path is taken to be absolute and not a URL, as the editor
  gives it.
\<close>

theorem static_schema_uri:
  assumes "path_isAbsolute env (path_join env (extensionPath ctx) ''service-schema.json'')"
    and "\<not> hasHttpScheme env (path_join env (extensionPath ctx) ''service-schema.json'')"
  shows "staticSchemaUri env ctx workspaceFolder =
     (if trim env (customSchemaFile env) = []
      then Inr (Uri_file env (path_join env (extensionPath ctx) ''service-schema.json''))
      else if hasHttpScheme env (customSchemaFile env)
      then Uri_parse env (customSchemaFile env)
      else if path_isAbsolute env (customSchemaFile env)
      then Inr (Uri_file env (customSchemaFile env))
      else (case workspaceFolder of
              Some folder \<Rightarrow>
                Inr (Uri_file env (path_join env (fsPath folder) (customSchemaFile env)))
            | None \<Rightarrow>
                Inr (Uri_file env (path_join env (extensionPath ctx) ''service-schema.json''))))"
  using assms
  by (cases "trim env (customSchemaFile env) = []")
     (simp_all add: staticSchemaUri_def alternateSchemaOf_def split: option.splits)

theorem static_schema_uri_witness:
  "path_isAbsolute relativeSetting (path_join relativeSetting (extensionPath sampleContext)
                                     ''service-schema.json'') \<and>
   staticSchemaUri relativeSetting sampleContext None =
     Inr \<lparr>scheme = ''file'', authority = [], path = ''/ext/service-schema.json'',
          query = [], fragment = []\<rparr> \<and>
   staticSchemaUri relativeSetting sampleContext (Some repoA) =
     Inr \<lparr>scheme = ''file'', authority = [], path = ''/work/repo-a/schemas/custom.json'',
          query = [], fragment = []\<rparr> \<and>
   staticSchemaUri urlSetting sampleContext (Some repoA) =
     Inr \<lparr>scheme = ''https'', authority = ''host'', path = ''/p/q'', query = [], fragment = []\<rparr>"
proof -
  have a: "path_isAbsolute (sampleEnv\<lparr>customSchemaFile := c\<rparr>)
             (path_join (sampleEnv\<lparr>customSchemaFile := c\<rparr>) (extensionPath sampleContext)
                ''service-schema.json'')" for c
    by (simp add: sample_platform sampleContext_def)
  have b: "\<not> hasHttpScheme (sampleEnv\<lparr>customSchemaFile := c\<rparr>)
             (path_join (sampleEnv\<lparr>customSchemaFile := c\<rparr>) (extensionPath sampleContext)
                ''service-schema.json'')" for c
    by (simp add: hasHttpScheme_def sample_platform sampleContext_def lowerChar_def)
  have p: "sampleParse ''https://host/p/q'' =
     Inr \<lparr>scheme = ''https'', authority = ''host'', path = ''/p/q'', query = [], fragment = []\<rparr>"
    by (simp add: sampleParse_def)
  from static_schema_uri[OF a b, of "''schemas/custom.json''" None]
    static_schema_uri[OF a b, of "''schemas/custom.json''" "Some repoA"]
    static_schema_uri[OF a b, of "''https://host/p/q''" "Some repoA"] a
  show ?thesis
    by (simp add: relativeSetting_def urlSetting_def sample_platform hasHttpScheme_def
        sampleTrim_def lowerChar_def sampleContext_def repoA_def p)
qed

subsection \<open>C5: the first session with access\<close>

text \<open>
  Claim C5. The loop of lines 153 to 160 returns the first session, in the order of the
  provider's list, whose organization list holds the name compared in lower case, and
  \<open>None\<close> when no session has it. A query that throws ends the loop with that error, so
  the statement is about the runs in which no query throws before the first match.
\<close>

theorem findSession_first_match:
  assumes "\<forall>s\<in>set (takeWhile (\<lambda>s. \<not> hasAccess env organizationName s) azureSessions).
             \<exists>organizations. listOrganizations env s = Inr organizations"
  shows "fst (findSession env organizationName azureSessions st) =
           Inr (find (hasAccess env organizationName) azureSessions)"
  using findSession_run[OF assms, of st] by simp

theorem findSession_first_match_witness:
  "fst (findSession twoSessions ''CONTOSO'' (sessions twoSessions) initial) = Inr (Some alice) \<and>
   fst (findSession twoSessions ''adventure'' (sessions twoSessions) initial) = Inr None"
proof -
  have a: "\<And>org s. \<exists>organizations. listOrganizations twoSessions s = Inr organizations"
    by (simp add: twoSessions_def)
  have "find (hasAccess twoSessions ''CONTOSO'') (sessions twoSessions) = Some alice"
    by (simp add: twoSessions_def sampleEnv_def hasAccess_def bob_def alice_def lowerChar_def)
  moreover have "find (hasAccess twoSessions ''adventure'') (sessions twoSessions) = None"
    by (simp add: twoSessions_def sampleEnv_def hasAccess_def bob_def alice_def lowerChar_def)
  ultimately show ?thesis
    using findSession_first_match[of twoSessions "''CONTOSO''" "sessions twoSessions" initial]
      findSession_first_match[of twoSessions "''adventure''" "sessions twoSessions" initial] a
    by simp
qed

subsection \<open>C6: a stored choice is found again\<close>

text \<open>
  Claim C6. A run of the select-organization continuation stored the pair \<open>(org, t)\<close> for a
  folder (it ended normally and its trace holds the update). In any later state with the
  same stored choices (resolutions do not write them: lemma
  \<open>autoDetectSchema_keeps_choices\<close>), a resolution of that folder by a signed-in user, with a remote that
  is not an Azure Repos URL and a session of tenant \<open>t\<close>, resolves to \<open>org\<close> with the first
  such session, goes on to the fetch for \<open>org\<close>, shows neither message nor quick pick, and
  starts no new continuation.
\<close>

theorem persisted_choice_round_trip:
  assumes "selectOrganizationAnswered env1 folder captured action st0 = (Inr (), st1)"
    and "UpdateWorkspaceState (name folder) \<lparr>organization = org, tenant = t\<rparr>
           \<in> set (emitted st0 st1)"
    and "azurePipelinesDetails st2 = azurePipelinesDetails st1"
    and "getAzureAccountExtensionApi env2 = Inr ()" and "waitForSubscriptions env2 = Inr True"
    and "\<not> recognizedRemote env2 folder"
    and "find (\<lambda>s. tenantId s = t) (sessions env2) = Some s2"
  shows "(\<exists>ls. identify env2 folder st2 =
                 (Inr (Resolved org (Some s2)), st2\<lparr>trace := trace st2 @ map Log ls\<rparr>) \<and>
               autoDetectSchema env2 context folder st2 =
                 andThen (fetchSchema env2 context folder org s2) (\<lambda>schemaUri. ret (Some schemaUri))
                   (st2\<lparr>trace := trace st2 @ map Log ls\<rparr>)) \<and>
         filter isPrompt (emitted st2 (snd (autoDetectSchema env2 context folder st2))) = [] \<and>
         pending (snd (autoDetectSchema env2 context folder st2)) = pending st2"
proof -
  let ?d = "\<lparr>organization = org, tenant = t\<rparr>"
  from assms(1) have "azurePipelinesDetails st1 = Some (merged captured (name folder) ?d)"
  proof (cases rule: selectOrganizationAnswered_run)
    case (kept es)
    with assms(2) show ?thesis by auto
  next
    case (stored es label data)
    from stored(4) have "UpdateWorkspaceState (name folder) ?d \<notin> set es"
      by (auto simp: list_all_iff)
    with assms(2) stored(3) have "label = org" "tenantId data = t" by auto
    with stored(2) show ?thesis by simp
  qed
  with assms(3) have choice: "storedChoice st2 (name folder) = Some ?d"
    by (simp add: storedChoice_def merged_def)
  from identify_unrecognized[OF assms(6), of st2] obtain ls where
    id: "identify env2 folder st2 =
           fromWorkspaceState env2 folder (st2\<lparr>trace := trace st2 @ map Log ls\<rparr>)"
    by blast
  let ?st3 = "st2\<lparr>trace := trace st2 @ map Log ls\<rparr>"
  let ?ls = "ls @ [NotAzureRepo (name folder), UsingCachedInformation (name folder) org (tenantId s2)]"
  let ?st4 = "st2\<lparr>trace := trace st2 @ map Log ?ls\<rparr>"
  have "fromWorkspaceState env2 folder ?st3 =
          (Inr (Resolved (organization ?d) (Some s2)),
           ?st3\<lparr>trace := trace ?st3 @ map Log [NotAzureRepo (name folder),
              UsingCachedInformation (name folder) (organization ?d) (tenantId s2)]\<rparr>)"
    by (rule fromWorkspaceState_stored) (use choice assms(7) in simp_all)
  with id have id': "identify env2 folder st2 = (Inr (Resolved org (Some s2)), ?st4)"
    by simp
  let ?fetch = "andThen (fetchSchema env2 context folder org s2) (\<lambda>schemaUri. ret (Some schemaUri))"
  from id' have auto: "autoDetectSchema env2 context folder st2 = ?fetch ?st4"
    by (simp add: autoDetectSchema_logged_in[OF assms(4,5)] andThen_Inr)
  have "emits (\<lambda>e. \<not> isPrompt e) ?fetch"
    by (auto intro!: emits_intros emits_fetchSchema)
  then obtain es where es: "trace (snd (?fetch ?st4)) = trace ?st4 @ es"
    "list_all (\<lambda>e. \<not> isPrompt e) es"
    unfolding emits_def by blast
  have "keeps pending ?fetch"
    by (auto intro!: keeps_intros keeps_fetchSchema)
  then have p: "pending (snd (?fetch ?st4)) = pending st2"
    unfolding keeps_def by simp
  from es have "emitted st2 (snd (?fetch ?st4)) = map Log ?ls @ es"
    by (simp add: emitted_def)
  with es(2) have f: "filter isPrompt (emitted st2 (snd (?fetch ?st4))) = []"
    by (auto simp: filter_empty_conv list_all_iff)
  have "\<exists>ls. identify env2 folder st2 =
                 (Inr (Resolved org (Some s2)), st2\<lparr>trace := trace st2 @ map Log ls\<rparr>) \<and>
               autoDetectSchema env2 context folder st2 =
                 ?fetch (st2\<lparr>trace := trace st2 @ map Log ls\<rparr>)"
    using id' auto by (intro exI[of _ ?ls]) simp
  with auto p f show ?thesis by simp
qed

theorem persisted_choice_round_trip_witness:
  "selectOrganizationAnswered sampleEnv repoA None (Some ''Select organization'') initial =
     (Inr (), chosenA) \<and>
   UpdateWorkspaceState (name repoA) \<lparr>organization = ''Contoso'', tenant = ''tenant-1''\<rparr>
     \<in> set (emitted initial chosenA) \<and>
   find (\<lambda>s. tenantId s = ''tenant-1'') (sessions sampleEnv) = Some alice \<and>
   (\<exists>ls. identify sampleEnv repoA chosenA =
           (Inr (Resolved ''Contoso'' (Some alice)),
            chosenA\<lparr>trace := trace chosenA @ map Log ls\<rparr>)) \<and>
   filter isPrompt (emitted chosenA (snd (autoDetectSchema sampleEnv sampleContext repoA chosenA)))
     = [] \<and>
   pending (snd (autoDetectSchema sampleEnv sampleContext repoA chosenA)) = pending chosenA"
proof -
  have h1: "selectOrganizationAnswered sampleEnv repoA None (Some ''Select organization'')
              initial = (Inr (), chosenA)"
    by (simp add: chosenA_def sample_choice)
  have h2: "UpdateWorkspaceState (name repoA)
              \<lparr>organization = ''Contoso'', tenant = ''tenant-1''\<rparr> \<in> set (emitted initial chosenA)"
    by (simp add: chosenA_def sample_choice emitted_def initial_def)
  have h4: "getAzureAccountExtensionApi sampleEnv = Inr ()"
    and h5: "waitForSubscriptions sampleEnv = Inr True"
    and h7: "find (\<lambda>s. tenantId s = ''tenant-1'') (sessions sampleEnv) = Some alice"
    by (simp_all add: sampleEnv_def alice_def)
  from persisted_choice_round_trip[OF h1 h2 refl h4 h5 sample_unrecognized h7, of sampleContext]
  show ?thesis using h1 h2 h7 by blast
qed

subsection \<open>C7: declining and cancelling\<close>

text \<open>
  Claim C7. When the user dismisses the select-organization message, or answers it and
  then leaves the quick pick without a selection, the continuation of lines 187 to 230 ends
  normally, the stored choices are as they were, and the event is not fired.
\<close>

theorem declined_or_cancelled:
  assumes "action \<noteq> Some (selectOrganizationLabel env) \<or>
           showQuickPick env (case fst (organizationAndSessionsPromise env st) of
                                Inr items \<Rightarrow> items | Inl e \<Rightarrow> None) = Inr None"
  shows "\<exists>st'. selectOrganizationAnswered env folder capturedDetails action st = (Inr (), st') \<and>
           azurePipelinesDetails st' = azurePipelinesDetails st \<and>
           filter isFire (emitted st st') = []"
proof (cases "action = Some (selectOrganizationLabel env)")
  case False
  then show ?thesis
    by (simp add: selectOrganizationAnswered_def ret_def emitted_def)
next
  case True
  from promise_run[of env st] obtain items st1 es where
    p: "organizationAndSessionsPromise env st = (Inr items, st1)"
    and t: "trace st1 = trace st @ es" "list_all (\<lambda>e. \<exists>s. e = ListOrganizations s) es"
    and d: "azurePipelinesDetails st1 = azurePipelinesDetails st"
    by blast
  from assms True p have q: "showQuickPick env items = Inr None" by simp
  from t(2) have nofire: "filter isFire es = []"
    by (auto simp: filter_empty_conv list_all_iff)
  from True p q have "selectOrganizationAnswered env folder capturedDetails action st =
      (Inr (), st1\<lparr>trace := trace st1 @ [ShowQuickPick]\<rparr>)"
    by (simp add: selectOrganizationAnswered_def andThen_def await_def ret_def)
  with t d nofire show ?thesis by (simp add: emitted_def)
qed

theorem declined_or_cancelled_witness:
  "(\<exists>st'. selectOrganizationAnswered sampleEnv repoA None None initial = (Inr (), st') \<and>
          azurePipelinesDetails st' = None \<and> filter isFire (emitted initial st') = []) \<and>
   showQuickPick cancelling (case fst (organizationAndSessionsPromise cancelling initial) of
                               Inr items \<Rightarrow> items | Inl e \<Rightarrow> None) = Inr None \<and>
   (\<exists>st'. selectOrganizationAnswered cancelling repoA None
            (Some (selectOrganizationLabel cancelling)) initial = (Inr (), st') \<and>
          azurePipelinesDetails st' = None \<and> filter isFire (emitted initial st') = [])"
proof -
  have a: "None \<noteq> Some (selectOrganizationLabel sampleEnv)" by simp
  have b: "showQuickPick cancelling (case fst (organizationAndSessionsPromise cancelling initial) of
                               Inr items \<Rightarrow> items | Inl e \<Rightarrow> None) = Inr None"
    by (simp add: cancelling_def)
  have i: "azurePipelinesDetails initial = None" by (simp add: initial_def)
  from declined_or_cancelled[OF disjI1, OF a, where folder = repoA and capturedDetails = None
        and st = initial]
    declined_or_cancelled[OF disjI2, OF b, where folder = repoA and capturedDetails = None
        and action = "Some (selectOrganizationLabel cancelling)"]
  show ?thesis using b i by simp
qed

subsection \<open>C8: the choices of other folders\<close>

text \<open>
  Claim C8. The update of lines 221 to 227 spreads the object that was read at line 164,
  when the message was shown, not the object stored at the time of the update (lemma
  \<open>selection_merges_captured\<close>). With two messages on screen, the second selection
  therefore writes an object without the entry that the first selection stored: after the
  choice for \<^verbatim>\<open>repo-b\<close>, the entry of \<^verbatim>\<open>repo-a\<close> is gone. The event is fired after the
  update.
\<close>

theorem second_selection_drops_first_choice:
  "pending afterPromptB =
     [SelectOrganizationPrompt repoA None, SelectOrganizationPrompt repoB None] \<and>
   storedChoice afterChoiceA ''repo-a'' =
     Some \<lparr>organization = ''Contoso'', tenant = ''tenant-1''\<rparr> \<and>
   storedChoice afterChoiceB ''repo-a'' = None \<and>
   storedChoice afterChoiceB ''repo-b'' =
     Some \<lparr>organization = ''Contoso'', tenant = ''tenant-1''\<rparr> \<and>
   filter isFire (emitted afterChoiceA afterChoiceB) = [Fire repoB]"
proof -
  have i: "storedChoice initial (name repoA) = None"
    by (simp add: storedChoice_def initial_def)
  have a: "afterPromptA = initial\<lparr>pending := [SelectOrganizationPrompt repoA None],
      trace := [Log (DetectingSchema ''repo-a''), Log (NotAzureRepo ''repo-a''),
           Log (PromptingForOrganization ''repo-a''),
           ShowInformationMessage (SelectOrganizationForEnhancedIntelliSense ''repo-a'')
             ''Select organization'',
           Log (UsingHardcodedSchema ''repo-a'' ''/ext/service-schema.json'')]\<rparr>"
    by (simp add: afterPromptA_def sample_prompt[OF i]) (simp add: initial_def repoA_def)
  have "storedChoice afterPromptA (name repoB) = None"
    by (simp add: a storedChoice_def initial_def)
  from sample_prompt[OF this] have b: "pending afterPromptB =
     [SelectOrganizationPrompt repoA None, SelectOrganizationPrompt repoB None]"
    "azurePipelinesDetails afterPromptB = None"
    by (simp_all add: afterPromptB_def a initial_def)
  have c: "azurePipelinesDetails afterChoiceA =
      Some (merged None ''repo-a'' \<lparr>organization = ''Contoso'', tenant = ''tenant-1''\<rparr>)"
    by (simp add: afterChoiceA_def sample_choice repoA_def)
  have d: "azurePipelinesDetails afterChoiceB =
      Some (merged None ''repo-b'' \<lparr>organization = ''Contoso'', tenant = ''tenant-1''\<rparr>)"
    "emitted afterChoiceA afterChoiceB = [ListOrganizations alice, ShowQuickPick,
                   UpdateWorkspaceState ''repo-b''
                     \<lparr>organization = ''Contoso'', tenant = ''tenant-1''\<rparr>,
                   Fire repoB]"
    by (simp_all add: afterChoiceB_def sample_choice repoB_def emitted_def)
  from b c d show ?thesis
    by (simp add: storedChoice_def merged_def)
qed

subsection \<open>C9: the cache after a failed fetch\<close>

text \<open>
  Claim C9. A run of \<^verbatim>\<open>autoDetectSchema\<close> either leaves \<^verbatim>\<open>seenOrganizations\<close> as it was, or
  adds one organization that was not in it. In the second case the identity phase resolved
  to that organization and a session; the storage directory was created, the token of that
  session retrieved, the task agent service and then the schema requested with that token,
  and the document that the schema request returned written to the file of the
  organization; each of these calls succeeded; they are, in this order, the last entries
  of the trace; and the run returned that file. A run that throws leaves the set as it was.
  And a resolution for an organization that is not in the set goes through the fetch again
  call by call: it ends with the error of the first call that throws, the trace ending at
  that call and the set unchanged, and only after the write has succeeded is the
  organization added and the file returned.
\<close>

theorem seen_only_after_write:
  assumes "autoDetectSchema env ctx folder st = (r, st')"
  shows "(seenOrganizations st' = seenOrganizations st \<or>
          (\<exists>org s token schema st1.
             org \<notin> seenOrganizations st \<and>
             seenOrganizations st' = insert org (seenOrganizations st) \<and>
             identify env folder st = (Inr (Resolved org (Some s)), st1) \<and>
             createDirectory env (globalStorageUri ctx) = Inr () \<and>
             getToken env s = Inr token \<and>
             getTaskAgentApi env (serverUrl org) token = Inr () \<and>
             getYamlSchema env (serverUrl org) token = Inr schema \<and>
             writeFile env (schemaUriOf env ctx org) schema = Inr () \<and>
             r = Inr (Some (schemaUriOf env ctx org)) \<and>
             emitted st st' = emitted st st1 @
               [CreateDirectory (globalStorageUri ctx), Log (RetrievingSchema (name folder)),
                GetToken s, GetTaskAgentApi (serverUrl org), GetYamlSchema (serverUrl org),
                WriteFile (schemaUriOf env ctx org) schema])) \<and>
         ((\<exists>e. r = Inl e) \<longrightarrow> seenOrganizations st' = seenOrganizations st) \<and>
         (\<forall>org s st1.
            getAzureAccountExtensionApi env = Inr () \<and> waitForSubscriptions env = Inr True \<and>
            identify env folder st = (Inr (Resolved org (Some s)), st1) \<and>
            org \<notin> seenOrganizations st \<and> createDirectory env (globalStorageUri ctx) = Inr ()
            \<longrightarrow>
            (r, st') =
              (case getToken env s of
                 Inl e \<Rightarrow> (Inl e, st1\<lparr>trace := trace st1 @
                     [CreateDirectory (globalStorageUri ctx), Log (RetrievingSchema (name folder)),
                      GetToken s]\<rparr>)
               | Inr token \<Rightarrow>
              (case getTaskAgentApi env (serverUrl org) token of
                 Inl e \<Rightarrow> (Inl e, st1\<lparr>trace := trace st1 @
                     [CreateDirectory (globalStorageUri ctx), Log (RetrievingSchema (name folder)),
                      GetToken s, GetTaskAgentApi (serverUrl org)]\<rparr>)
               | Inr _ \<Rightarrow>
              (case getYamlSchema env (serverUrl org) token of
                 Inl e \<Rightarrow> (Inl e, st1\<lparr>trace := trace st1 @
                     [CreateDirectory (globalStorageUri ctx), Log (RetrievingSchema (name folder)),
                      GetToken s, GetTaskAgentApi (serverUrl org),
                      GetYamlSchema (serverUrl org)]\<rparr>)
               | Inr schema \<Rightarrow>
              (case writeFile env (schemaUriOf env ctx org) schema of
                 Inl e \<Rightarrow> (Inl e, st1\<lparr>trace := trace st1 @
                     [CreateDirectory (globalStorageUri ctx), Log (RetrievingSchema (name folder)),
                      GetToken s, GetTaskAgentApi (serverUrl org), GetYamlSchema (serverUrl org),
                      WriteFile (schemaUriOf env ctx org) schema]\<rparr>)
               | Inr _ \<Rightarrow>
                   (Inr (Some (schemaUriOf env ctx org)),
                    st1\<lparr>seenOrganizations := insert org (seenOrganizations st1),
                        trace := trace st1 @
                     [CreateDirectory (globalStorageUri ctx), Log (RetrievingSchema (name folder)),
                      GetToken s, GetTaskAgentApi (serverUrl org), GetYamlSchema (serverUrl org),
                      WriteFile (schemaUriOf env ctx org) schema]\<rparr>))))))"
proof -
  have changes: "seenOrganizations st' = seenOrganizations st \<or>
          (\<exists>org s token schema st1.
             org \<notin> seenOrganizations st \<and>
             seenOrganizations st' = insert org (seenOrganizations st) \<and>
             identify env folder st = (Inr (Resolved org (Some s)), st1) \<and>
             createDirectory env (globalStorageUri ctx) = Inr () \<and>
             getToken env s = Inr token \<and>
             getTaskAgentApi env (serverUrl org) token = Inr () \<and>
             getYamlSchema env (serverUrl org) token = Inr schema \<and>
             writeFile env (schemaUriOf env ctx org) schema = Inr () \<and>
             r = Inr (Some (schemaUriOf env ctx org)) \<and>
             emitted st st' = emitted st st1 @
               [CreateDirectory (globalStorageUri ctx), Log (RetrievingSchema (name folder)),
                GetToken s, GetTaskAgentApi (serverUrl org), GetYamlSchema (serverUrl org),
                WriteFile (schemaUriOf env ctx org) schema])"
    using assms
  proof (cases rule: autoDetectSchema_cases)
    case (stopped es)
    then show ?thesis by simp
  next
    case (resolved org s st1 r1)
    from identify_frame[OF resolved(3)] obtain es where
      seen: "seenOrganizations st1 = seenOrganizations st" and tr: "trace st1 = trace st @ es"
      by blast
    show ?thesis
    proof (cases "seenOrganizations st' = seenOrganizations st1")
      case True
      with seen show ?thesis by simp
    next
      case False
      from resolved(4) False obtain token schema where
        f: "org \<notin> seenOrganizations st1"
          "createDirectory env (globalStorageUri ctx) = Inr ()"
          "getToken env s = Inr token"
          "getTaskAgentApi env (serverUrl org) token = Inr ()"
          "getYamlSchema env (serverUrl org) token = Inr schema"
          "writeFile env (schemaUriOf env ctx org) schema = Inr ()"
          "r1 = Inr (schemaUriOf env ctx org)"
          "st' = st1\<lparr>seenOrganizations := insert org (seenOrganizations st1),
               trace := trace st1 @ [CreateDirectory (globalStorageUri ctx),
                      Log (RetrievingSchema (name folder)), GetToken s,
                      GetTaskAgentApi (serverUrl org), GetYamlSchema (serverUrl org),
                      WriteFile (schemaUriOf env ctx org) schema]\<rparr>"
        by (rule fetchSchema_changes_seen)
      from f(8) tr have em: "emitted st st' = emitted st st1 @
               [CreateDirectory (globalStorageUri ctx), Log (RetrievingSchema (name folder)),
                GetToken s, GetTaskAgentApi (serverUrl org), GetYamlSchema (serverUrl org),
                WriteFile (schemaUriOf env ctx org) schema]"
        by (simp add: emitted_def)
      from f(8) seen have s': "seenOrganizations st' = insert org (seenOrganizations st)"
        by simp
      from f(7) resolved(5) have r: "r = Inr (Some (schemaUriOf env ctx org))" by simp
      from f(1) seen have new: "org \<notin> seenOrganizations st" by simp
      from new s' resolved(3) f(2-6) r em show ?thesis by blast
    qed
  qed
  then have errors: "(\<exists>e. r = Inl e) \<longrightarrow> seenOrganizations st' = seenOrganizations st"
    by auto
  have retry: "(r, st') =
              (case getToken env s of
                 Inl e \<Rightarrow> (Inl e, st1\<lparr>trace := trace st1 @
                     [CreateDirectory (globalStorageUri ctx), Log (RetrievingSchema (name folder)),
                      GetToken s]\<rparr>)
               | Inr token \<Rightarrow>
              (case getTaskAgentApi env (serverUrl org) token of
                 Inl e \<Rightarrow> (Inl e, st1\<lparr>trace := trace st1 @
                     [CreateDirectory (globalStorageUri ctx), Log (RetrievingSchema (name folder)),
                      GetToken s, GetTaskAgentApi (serverUrl org)]\<rparr>)
               | Inr _ \<Rightarrow>
              (case getYamlSchema env (serverUrl org) token of
                 Inl e \<Rightarrow> (Inl e, st1\<lparr>trace := trace st1 @
                     [CreateDirectory (globalStorageUri ctx), Log (RetrievingSchema (name folder)),
                      GetToken s, GetTaskAgentApi (serverUrl org),
                      GetYamlSchema (serverUrl org)]\<rparr>)
               | Inr schema \<Rightarrow>
              (case writeFile env (schemaUriOf env ctx org) schema of
                 Inl e \<Rightarrow> (Inl e, st1\<lparr>trace := trace st1 @
                     [CreateDirectory (globalStorageUri ctx), Log (RetrievingSchema (name folder)),
                      GetToken s, GetTaskAgentApi (serverUrl org), GetYamlSchema (serverUrl org),
                      WriteFile (schemaUriOf env ctx org) schema]\<rparr>)
               | Inr _ \<Rightarrow>
                   (Inr (Some (schemaUriOf env ctx org)),
                    st1\<lparr>seenOrganizations := insert org (seenOrganizations st1),
                        trace := trace st1 @
                     [CreateDirectory (globalStorageUri ctx), Log (RetrievingSchema (name folder)),
                      GetToken s, GetTaskAgentApi (serverUrl org), GetYamlSchema (serverUrl org),
                      WriteFile (schemaUriOf env ctx org) schema]\<rparr>)))))"
    if login: "getAzureAccountExtensionApi env = Inr ()" "waitForSubscriptions env = Inr True"
      and id: "identify env folder st = (Inr (Resolved org (Some s)), st1)"
      and new: "org \<notin> seenOrganizations st"
      and dir: "createDirectory env (globalStorageUri ctx) = Inr ()"
    for org s st1
  proof -
    from identify_frame(1)[OF id] new have new1: "org \<notin> seenOrganizations st1" by simp
    from autoDetectSchema_resolved[OF login id, of ctx] assms
    have "(r, st') = andThen (fetchSchema env ctx folder org s)
                       (\<lambda>schemaUri. ret (Some schemaUri)) st1"
      by simp
    then show ?thesis
      by (simp add: andThen_def ret_def fetchSchema_fresh[OF new1] dir split: sum.splits)
  qed
  from changes errors retry show ?thesis by blast
qed

theorem seen_only_after_write_witness:
  "getYamlSchema azureEnv (serverUrl ''contoso'') ''token'' = Inr ''{}'' \<and>
   autoDetectSchema azureEnv sampleContext repoA initial =
     (Inr (Some (schemaUriOf azureEnv sampleContext ''contoso'')),
      initial\<lparr>seenOrganizations := {''contoso''},
        trace := [Log (FoundRemoteUrl ''repo-a''
                        (Some ''https://dev.azure.com/contoso/project/_git/repo'')),
                  Log (IsAzureRepo ''repo-a''), ListOrganizations alice,
                  CreateDirectory (globalStorageUri sampleContext),
                  Log (RetrievingSchema ''repo-a''), GetToken alice,
                  GetTaskAgentApi (serverUrl ''contoso''), GetYamlSchema (serverUrl ''contoso''),
                  WriteFile (schemaUriOf azureEnv sampleContext ''contoso'') ''{}'']\<rparr>) \<and>
   autoDetectSchema failingWrite sampleContext repoA initial =
     (Inl (Thrown ''EACCES''),
      initial\<lparr>trace := [Log (FoundRemoteUrl ''repo-a''
                        (Some ''https://dev.azure.com/contoso/project/_git/repo'')),
                  Log (IsAzureRepo ''repo-a''), ListOrganizations alice,
                  CreateDirectory (globalStorageUri sampleContext),
                  Log (RetrievingSchema ''repo-a''), GetToken alice,
                  GetTaskAgentApi (serverUrl ''contoso''), GetYamlSchema (serverUrl ''contoso''),
                  WriteFile (schemaUriOf failingWrite sampleContext ''contoso'') ''{}'']\<rparr>) \<and>
   seenOrganizations (snd (autoDetectSchema failingWrite sampleContext repoA initial)) = {}"
proof -
  let ?st1 = "initial\<lparr>trace := trace initial @ [Log (FoundRemoteUrl (name repoA)
             (Some ''https://dev.azure.com/contoso/project/_git/repo'')),
           Log (IsAzureRepo (name repoA)), ListOrganizations alice]\<rparr>"
  have idF: "identify failingWrite repoA initial = (Inr (Resolved ''contoso'' (Some alice)), ?st1)"
    unfolding failingWrite_def by (rule azure_identify)
  have idA: "identify azureEnv repoA initial = (Inr (Resolved ''contoso'' (Some alice)), ?st1)"
    by (rule azure_identify_plain)
  have partsF: "getAzureAccountExtensionApi failingWrite = Inr ()"
    "waitForSubscriptions failingWrite = Inr True"
    "createDirectory failingWrite (globalStorageUri sampleContext) = Inr ()"
    "getToken failingWrite alice = Inr ''token''"
    "getTaskAgentApi failingWrite (serverUrl ''contoso'') ''token'' = Inr ()"
    "getYamlSchema failingWrite (serverUrl ''contoso'') ''token'' = Inr ''{}''"
    "writeFile failingWrite (schemaUriOf failingWrite sampleContext ''contoso'') ''{}'' =
       Inl (Thrown ''EACCES'')"
    by (simp_all add: failingWrite_def azure_login azure_fetch_parts)
  have new: "''contoso'' \<notin> seenOrganizations initial" "seenOrganizations initial = {}"
    "trace initial = []"
    by (simp_all add: initial_def)
  have n: "name repoA = ''repo-a''" by (simp add: repoA_def)
  from seen_only_after_write[OF surjective_pairing, of azureEnv sampleContext repoA initial]
  have "autoDetectSchema azureEnv sampleContext repoA initial =
     (Inr (Some (schemaUriOf azureEnv sampleContext ''contoso'')),
      ?st1\<lparr>seenOrganizations := insert ''contoso'' (seenOrganizations ?st1),
        trace := trace ?st1 @ [CreateDirectory (globalStorageUri sampleContext),
                  Log (RetrievingSchema (name repoA)), GetToken alice,
                  GetTaskAgentApi (serverUrl ''contoso''), GetYamlSchema (serverUrl ''contoso''),
                  WriteFile (schemaUriOf azureEnv sampleContext ''contoso'') ''{}'']\<rparr>)"
    using idA new(1) by (simp add: azure_login azure_fetch_parts)
  then have a: "autoDetectSchema azureEnv sampleContext repoA initial =
     (Inr (Some (schemaUriOf azureEnv sampleContext ''contoso'')),
      initial\<lparr>seenOrganizations := {''contoso''},
        trace := [Log (FoundRemoteUrl ''repo-a''
                        (Some ''https://dev.azure.com/contoso/project/_git/repo'')),
                  Log (IsAzureRepo ''repo-a''), ListOrganizations alice,
                  CreateDirectory (globalStorageUri sampleContext),
                  Log (RetrievingSchema ''repo-a''), GetToken alice,
                  GetTaskAgentApi (serverUrl ''contoso''), GetYamlSchema (serverUrl ''contoso''),
                  WriteFile (schemaUriOf azureEnv sampleContext ''contoso'') ''{}'']\<rparr>)"
    by (simp add: new n)
  from seen_only_after_write[OF surjective_pairing, of failingWrite sampleContext repoA initial]
  have "autoDetectSchema failingWrite sampleContext repoA initial =
     (Inl (Thrown ''EACCES''),
      ?st1\<lparr>trace := trace ?st1 @ [CreateDirectory (globalStorageUri sampleContext),
                  Log (RetrievingSchema (name repoA)), GetToken alice,
                  GetTaskAgentApi (serverUrl ''contoso''), GetYamlSchema (serverUrl ''contoso''),
                  WriteFile (schemaUriOf failingWrite sampleContext ''contoso'') ''{}'']\<rparr>)"
    using idF new(1) by (simp add: partsF)
  then have b: "autoDetectSchema failingWrite sampleContext repoA initial =
     (Inl (Thrown ''EACCES''),
      initial\<lparr>trace := [Log (FoundRemoteUrl ''repo-a''
                        (Some ''https://dev.azure.com/contoso/project/_git/repo'')),
                  Log (IsAzureRepo ''repo-a''), ListOrganizations alice,
                  CreateDirectory (globalStorageUri sampleContext),
                  Log (RetrievingSchema ''repo-a''), GetToken alice,
                  GetTaskAgentApi (serverUrl ''contoso''), GetYamlSchema (serverUrl ''contoso''),
                  WriteFile (schemaUriOf failingWrite sampleContext ''contoso'') ''{}'']\<rparr>)"
    by (simp add: new n)
  from a b show ?thesis by (simp add: azure_fetch_parts new)
qed

subsection \<open>C10: the value returned\<close>

text \<open>
  Claim C10. Whatever the entry point returns is the \<^verbatim>\<open>path\<close> component of the URI it
  settled on, the detected one or the static one, never the URI as a string. In particular,
  with a workspace folder, no detected schema and a setting with an http(s) scheme that
  parses to \<open>u\<close>, the result is \<open>path u\<close>: scheme and authority are dropped, so
  \<^verbatim>\<open>https://host/p/q\<close> gives \<^verbatim>\<open>/p/q\<close>.
\<close>

theorem locateSchemaFile_returns_path:
  "(\<forall>p. fst (locateSchemaFile env ctx workspaceFolder st) = Inr p \<longrightarrow>
      (case fst (detected env ctx workspaceFolder st) of
         Inr (Some u) \<Rightarrow> p = path u
       | _ \<Rightarrow> (\<exists>u. staticSchemaUri env ctx workspaceFolder = Inr u \<and> p = path u))) \<and>
   (fst (detected env ctx (Some folder) st) = Inr None \<and>
    trim env (customSchemaFile env) \<noteq> [] \<and> hasHttpScheme env (customSchemaFile env) \<and>
    Uri_parse env (customSchemaFile env) = Inr u
    \<longrightarrow> fst (locateSchemaFile env ctx (Some folder) st) = Inr (path u))"
proof (intro conjI allI impI)
  fix p
  assume "fst (locateSchemaFile env ctx workspaceFolder st) = Inr p"
  then show "case fst (detected env ctx workspaceFolder st) of
         Inr (Some u) \<Rightarrow> p = path u
       | _ \<Rightarrow> (\<exists>u. staticSchemaUri env ctx workspaceFolder = Inr u \<and> p = path u)"
    by (auto simp: locateSchemaFile_def andThen_def ret_def raise_def outcome_def emit_def
        split: option.splits prod.splits sum.splits)
next
  assume a: "fst (detected env ctx (Some folder) st) = Inr None \<and>
    trim env (customSchemaFile env) \<noteq> [] \<and> hasHttpScheme env (customSchemaFile env) \<and>
    Uri_parse env (customSchemaFile env) = Inr u"
  then have "staticSchemaUri env ctx (Some folder) = Inr u"
    by (simp add: staticSchemaUri_def alternateSchemaOf_def)
  with a show "fst (locateSchemaFile env ctx (Some folder) st) = Inr (path u)"
    by (auto simp: locateSchemaFile_def andThen_def ret_def outcome_def emit_def
        split: prod.splits sum.splits)
qed

theorem locateSchemaFile_returns_path_witness:
  "Uri_parse urlSetting (customSchemaFile urlSetting) =
     Inr \<lparr>scheme = ''https'', authority = ''host'', path = ''/p/q'', query = [], fragment = []\<rparr> \<and>
   fst (locateSchemaFile urlSetting sampleContext (Some repoA) initial) = Inr ''/p/q''"
proof -
  have p: "Uri_parse urlSetting (customSchemaFile urlSetting) =
     Inr \<lparr>scheme = ''https'', authority = ''host'', path = ''/p/q'', query = [], fragment = []\<rparr>"
    by (simp add: urlSetting_def sample_platform sampleParse_def)
  have t: "trim urlSetting (customSchemaFile urlSetting) \<noteq> []"
    and h: "hasHttpScheme urlSetting (customSchemaFile urlSetting)"
    by (simp_all add: urlSetting_def sample_platform sampleTrim_def hasHttpScheme_def lowerChar_def)
  from locateSchemaFile_returns_path[of urlSetting sampleContext "Some repoA" initial repoA
      "\<lparr>scheme = ''https'', authority = ''host'', path = ''/p/q'', query = [], fragment = []\<rparr>"]
  show ?thesis using p t h url_detected by simp
qed

end
